theory Spec2Isabelle
  imports Complex_Main "HOL-Library.Log_Nat"
begin

text \<open>
  The program \<^verbatim>\<open>src/index.ts\<close> swaps a fixed amount of one token for another through a
  router contract, from an ERC-4337 smart account: it resolves a route, computes a minimum
  output from the route's output and a slippage percentage, approves the router when the
  allowance is too small, and signs, sends and awaits the swap user operation. The theory
  models its arithmetic (JavaScript numbers, \<^verbatim>\<open>toFixed\<close>, \<^verbatim>\<open>parseUnits\<close>) and its sequence of
  external calls, and proves what the quote is and in which order the calls are made.
\<close>

section \<open>JavaScript numbers\<close>

text \<open>
  \<^verbatim>\<open>routeOutput.output\<close>, \<^verbatim>\<open>size\<close> and \<^verbatim>\<open>slippagePercentage\<close> are JavaScript numbers:
  IEEE 754 binary64 values. A finite one is the rational it denotes; \<open>NonFinite\<close> stands
  for \<^verbatim>\<open>Infinity\<close>, \<^verbatim>\<open>-Infinity\<close> and \<^verbatim>\<open>NaN\<close>, which behave alike in every operation the program
  applies to them (they stay non-finite, differ from \<^verbatim>\<open>0\<close>, and \<^verbatim>\<open>toFixed\<close> prints a word that
  \<^verbatim>\<open>parseUnits\<close> rejects). The two zeros are one value: the program never divides by a
  computed number and \<^verbatim>\<open>toFixed\<close> prints both as \<^verbatim>\<open>0\<close>.
\<close>

datatype jsnum = Fin rat | NonFinite

text \<open>\<open>ilog2 x\<close> is the binary exponent of a positive \<open>x\<close>: \<open>2 powi ilog2 x \<le> x < 2 powi (ilog2 x + 1)\<close>.\<close>

definition ilog2 :: "rat \<Rightarrow> int" where
  "ilog2 x = (if 1 \<le> x then bitlen \<lfloor>x\<rfloor> - 1 else - bitlen (\<lceil>1 / x\<rceil> - 1))"

definition round_half_even :: "rat \<Rightarrow> int" where
  "round_half_even x =
     (let n = \<lfloor>x\<rfloor>; d = x - of_int n
      in if d < 1 / 2 then n else if 1 / 2 < d then n + 1 else if even n then n else n + 1)"

text \<open>
  Rounding of an exact result to binary64, round-to-nearest, ties to even: 53 significant
  bits, the unit in the last place never below \<open>2 powi -1074\<close> (subnormal numbers), and a
  rounded magnitude of \<open>2 powi 1024\<close> or more is \<^verbatim>\<open>Infinity\<close>.
\<close>

definition binary64 :: "rat \<Rightarrow> jsnum" where
  "binary64 x =
     (if x = 0 then Fin 0
      else let e = max (ilog2 \<bar>x\<bar> - 52) (- 1074);
               m = round_half_even (\<bar>x\<bar> / 2 powi e);
               v = of_int m * 2 powi e
           in if 2 powi 1024 \<le> v then NonFinite else Fin (sgn x * v))"

text \<open>The operators \<^verbatim>\<open>*\<close>, \<^verbatim>\<open>-\<close> and \<^verbatim>\<open>/\<close>; the divisor of \<^verbatim>\<open>/\<close> is a finite literal in the program.\<close>

fun num_times :: "jsnum \<Rightarrow> jsnum \<Rightarrow> jsnum" where
  "num_times (Fin x) (Fin y) = binary64 (x * y)"
| "num_times _ _ = NonFinite"

fun num_minus :: "jsnum \<Rightarrow> jsnum \<Rightarrow> jsnum" where
  "num_minus (Fin x) (Fin y) = binary64 (x - y)"
| "num_minus _ _ = NonFinite"

fun num_divide :: "jsnum \<Rightarrow> rat \<Rightarrow> jsnum" where
  "num_divide (Fin x) y = (if y = 0 then NonFinite else binary64 (x / y))"
| "num_divide NonFinite y = NonFinite"

section \<open>Decimal strings\<close>

definition digit_char :: "int \<Rightarrow> char" where
  "digit_char d = ''0123456789'' ! nat d"

definition digit_val :: "char \<Rightarrow> int" where
  "digit_val c = of_char c - 48"

definition is_digit :: "char \<Rightarrow> bool" where
  "is_digit c = (c \<in> set ''0123456789'')"

function dec_digits :: "int \<Rightarrow> string" where
  "dec_digits n = (if n < 10 then [digit_char n] else dec_digits (n div 10) @ [digit_char (n mod 10)])"
  by pat_completeness auto
termination
  by (relation "measure nat") auto

text \<open>\<^verbatim>\<open>BigInt(s)\<close> on a string of decimal digits (the empty string gives \<^verbatim>\<open>0n\<close>).\<close>

definition dec_value :: "string \<Rightarrow> int" where
  "dec_value s = foldl (\<lambda>a c. 10 * a + digit_val c) 0 s"

text \<open>
  \<^verbatim>\<open>Number.prototype.toFixed(f)\<close> (ECMAScript): for a finite \<open>x\<close> of magnitude below \<open>10^21\<close>,
  take the integer \<open>n\<close> nearest to \<open>\<bar>x\<bar> * 10^f\<close> (the larger one of two), print its digits,
  pad with zeros on the left to \<open>f + 1\<close> digits and put the point before the last \<open>f\<close>.
  \<open>None\<close> is a result that is no fixed-point numeral: exponent notation for a magnitude
  of \<open>10^21\<close> or more, and \<^verbatim>\<open>Infinity\<close>, \<^verbatim>\<open>-Infinity\<close>, \<^verbatim>\<open>NaN\<close>.
\<close>

fun toFixed :: "jsnum \<Rightarrow> nat \<Rightarrow> string option" where
  "toFixed NonFinite f = None"
| "toFixed (Fin x) f =
     (if 10 ^ 21 \<le> \<bar>x\<bar> then None
      else let s = (if x < 0 then ''-'' else '''');
               n = \<lfloor>\<bar>x\<bar> * 10 ^ f + 1 / 2\<rfloor>;
               m = (if n = 0 then ''0'' else dec_digits n);
               m = (if f \<noteq> 0 \<and> length m \<le> f then replicate (f + 1 - length m) CHR ''0'' @ m else m);
               k = length m
           in Some (if f \<noteq> 0 then s @ take (k - f) m @ ''.'' @ drop (k - f) m else s @ m))"

text \<open>\<^verbatim>\<open>Math.round(Number(s))\<close> for a decimal numeral \<open>s\<close> denoting \<open>q\<close>.\<close>

definition math_round_number :: "rat \<Rightarrow> int" where
  "math_round_number q = (case binary64 q of Fin v \<Rightarrow> \<lfloor>v + 1 / 2\<rfloor> | NonFinite \<Rightarrow> 0)"

definition trim_zeros :: "string \<Rightarrow> string" where
  "trim_zeros s = rev (dropWhile (\<lambda>c. c = CHR ''0'') (rev s))"

definition padStart :: "nat \<Rightarrow> string \<Rightarrow> string" where
  "padStart n s = replicate (n - length s) CHR ''0'' @ s"

definition padEnd :: "nat \<Rightarrow> string \<Rightarrow> string" where
  "padEnd n s = s @ replicate (n - length s) CHR ''0''"

text \<open>
  viem's \<^verbatim>\<open>parseUnits(value, decimals)\<close>: a value that is not an optional sign, digits, an
  optional point and digits throws (\<open>None\<close>); the fraction loses its trailing zeros, is
  rounded when it is longer than \<open>decimals\<close> and padded with zeros otherwise; the result
  is the integer written by the integer part followed by the fraction.
\<close>

definition parseUnits :: "string \<Rightarrow> nat \<Rightarrow> int option" where
  "parseUnits v decimals =
     (let negative = (v \<noteq> [] \<and> hd v = CHR ''-'');
          body = (if negative then tl v else v);
          integer = takeWhile (\<lambda>c. c \<noteq> CHR ''.'') body;
          rest = dropWhile (\<lambda>c. c \<noteq> CHR ''.'') body;
          fraction = trim_zeros (if rest = [] then ''0'' else tl rest)
      in if \<not> (list_all is_digit integer \<and> list_all is_digit fraction) then None
         else let (integer, fraction) =
               (if decimals = 0 then
                  (if fraction \<noteq> [] \<and> math_round_number (of_int (dec_value fraction) / 10 ^ length fraction) = 1
                   then dec_digits (dec_value integer + 1) else integer, [])
                else if decimals < length fraction then
                  (let left = take (decimals - 1) fraction;
                       unit = take 1 (drop (decimals - 1) fraction);
                       right = drop decimals fraction;
                       rounded = math_round_number
                         (of_int (dec_value unit) + of_int (dec_value right) / 10 ^ length right);
                       fraction = (if 9 < rounded
                                   then padStart (length left + 1) (dec_digits (dec_value left + 1) @ ''0'')
                                   else left @ dec_digits rounded)
                   in if decimals < length fraction
                      then (dec_digits (dec_value integer + 1), take decimals (tl fraction))
                      else (integer, take decimals fraction))
                else (integer, padEnd decimals fraction));
              n = dec_value (integer @ fraction)
          in Some (if negative then - n else n))"

text \<open>\<^verbatim>\<open>parseEther(v)\<close> is \<^verbatim>\<open>parseUnits(v, 18)\<close>.\<close>

definition parseEther :: "string \<Rightarrow> int option" where
  "parseEther v = parseUnits v 18"

section \<open>The quote: lines 61 and 62 of main\<close>

definition slippagePercentage :: jsnum where
  "slippagePercentage = Fin 5"

definition outTokenDecimals :: nat where
  "outTokenDecimals = 18"

text \<open>
  \<^verbatim>\<open>const size = 0.0001\<close>: the literal denotes the binary64 number nearest to it. (The name
  \<open>size\<close> is taken in HOL.)
\<close>

definition size_in :: jsnum where
  "size_in = binary64 (1 / 10000)"

text \<open>
  \<^verbatim>\<open>Number((output * (100 - slippage)) / 100).toFixed(outTokenDecimals)\<close>, then
  \<^verbatim>\<open>parseUnits(clippedOutput.toString(), outTokenDecimals)\<close>, with the slippage percentage
  as a parameter; the program fixes it to \<open>slippagePercentage\<close>.
\<close>

definition clippedOutput :: "jsnum \<Rightarrow> jsnum \<Rightarrow> string option" where
  "clippedOutput r s =
     toFixed (num_divide (num_times r (num_minus (Fin 100) s)) 100) outTokenDecimals"

definition minOutput :: "jsnum \<Rightarrow> jsnum \<Rightarrow> int option" where
  "minOutput r s =
     (case clippedOutput r s of None \<Rightarrow> None | Some c \<Rightarrow> parseUnits c outTokenDecimals)"

definition minTokenOutAmount :: "jsnum \<Rightarrow> int option" where
  "minTokenOutAmount r = minOutput r slippagePercentage"

text \<open>\<^verbatim>\<open>parseUnits(size.toFixed(18), outTokenDecimals)\<close>.\<close>

definition amountInWei :: "int option" where
  "amountInWei = (case toFixed size_in 18 of None \<Rightarrow> None | Some c \<Rightarrow> parseUnits c outTokenDecimals)"

section \<open>Routes, calls and user operations\<close>

type_synonym address = string

definition zeroAddress :: address where
  "zeroAddress = ''0x0000000000000000000000000000000000000000''"

definition USDC :: address where
  "USDC = ''0x9a29e9bab1f0b599d1c6c39b60a79596b3875f56''"

definition WIF :: address where
  "WIF = ''0xd9d972d687Bc511D833fe2550C456fEC1a857D2C''"

record pool =
  orderbook :: address

record route =
  route_path :: "pool list"
  route_tokenIn :: address
  route_tokenOut :: address

text \<open>
  The result of \<^verbatim>\<open>PathFinder.findBestPath\<close>; its field \<^verbatim>\<open>output\<close> is \<open>output_val\<close> here, and
  the fields of \<^verbatim>\<open>route\<close> carry the prefix \<open>route_\<close>.
\<close>

record routeOutput =
  output_val :: jsnum
  route :: route
  isBuy :: "bool list"
  nativeSend :: "bool list"

text \<open>
  Call data, kept as the function and its arguments: the router's \<^verbatim>\<open>anyToAnySwap\<close>
  (venues, buy flags, native-send flags, source token, destination token, input amount,
  minimum output) and the token's \<^verbatim>\<open>approve\<close> (spender, amount).
\<close>

datatype calldata =
    AnyToAnySwap "address list" "bool list" "bool list" address address int int
  | Approve address int

record call =
  call_to :: address
  call_value :: int
  call_data :: calldata

record userOperation =
  callData :: "call list"
  maxPriorityFeePerGas :: "int option"
  maxFeePerGas :: "int option"
  signature :: "string option"

text \<open>The exceptions a run can end with, named after the step that throws.\<close>

datatype error =
    UrlRequiredError
  | PoolFetcherError
  | PoolFetchError
  | PathFindError
  | InvalidDecimalNumberError
  | IntegerOutOfRangeError
  | InvalidPrivateKeyError
  | AccountError
  | InvalidAddressError
  | AllowanceReadError
  | SendUserOperationError
  | ReceiptError
  | SignUserOperationError

text \<open>
  viem's \<^verbatim>\<open>isAddress\<close>: the text \<^verbatim>\<open>0x\<close> followed by forty hexadecimal digits, and, when one
  of them is a capital letter, the EIP-55 checksum as well. The checksum is a keccak-256
  computation; the test for it is a parameter, \<open>checksummed\<close>.
\<close>

definition is_hex :: "char \<Rightarrow> bool" where
  "is_hex c = (c \<in> set ''0123456789abcdefABCDEF'')"

definition isAddress :: "(address \<Rightarrow> bool) \<Rightarrow> address \<Rightarrow> bool" where
  "isAddress checksummed a =
     (length a = 42 \<and> take 2 a = ''0x'' \<and> list_all is_hex (drop 2 a)
      \<and> (list_all (\<lambda>c. c \<notin> set ''ABCDEF'') a \<or> checksummed a))"

text \<open>
  \<^verbatim>\<open>encodeFunctionData\<close> encodes the arguments in order and throws on an address that is
  none and on an amount that is no \<^verbatim>\<open>uint256\<close>; in both functions the addresses come
  before the amounts.
\<close>

definition uint256 :: "int \<Rightarrow> bool" where
  "uint256 n = (0 \<le> n \<and> n < 2 ^ 256)"

definition encodeFunctionData :: "(address \<Rightarrow> bool) \<Rightarrow> calldata \<Rightarrow> error + calldata" where
  "encodeFunctionData checksummed d =
     (case d of
        AnyToAnySwap venues buys sends tin tout amountIn minOut \<Rightarrow>
          if \<not> (list_all (isAddress checksummed) venues \<and> isAddress checksummed tin
                \<and> isAddress checksummed tout)
          then Inl InvalidAddressError
          else if uint256 amountIn \<and> uint256 minOut then Inr d else Inl IntegerOutOfRangeError
      | Approve spender amount \<Rightarrow>
          if \<not> isAddress checksummed spender then Inl InvalidAddressError
          else if uint256 amount then Inr d else Inl IntegerOutOfRangeError)"

section \<open>The gas-fee fields: lines 144 to 161 of main\<close>

record fees =
  fees_maxPriorityFeePerGas :: "int option"
  fees_maxFeePerGas :: "int option"

text \<open>\<^verbatim>\<open>const userOpFees = undefined\<close>: the call that would fetch an estimate is commented out.\<close>

definition userOpFees :: "fees option" where
  "userOpFees = None"

definition gasIncreaser :: int where
  "gasIncreaser = 15"

text \<open>Division of \<^verbatim>\<open>BigInt\<close>s truncates towards zero.\<close>

definition bigint_div :: "int \<Rightarrow> int \<Rightarrow> int" where
  "bigint_div a b = sgn a * sgn b * (\<bar>a\<bar> div \<bar>b\<bar>)"

text \<open>
  \<^verbatim>\<open>f ? (BigInt(gasIncreaser) * f) / BigInt(10) : undefined\<close>, where \<open>f\<close> is
  \<^verbatim>\<open>userOpFees?.maxPriorityFeePerGas\<close> or \<^verbatim>\<open>userOpFees?.maxFeePerGas\<close>: the test is on
  truthiness, and \<^verbatim>\<open>0n\<close> is falsy.
\<close>

definition escalate :: "int option \<Rightarrow> int option" where
  "escalate f =
     (case f of None \<Rightarrow> None
      | Some v \<Rightarrow> if v = 0 then None else Some (bigint_div (gasIncreaser * v) 10))"

definition userOperation_of :: "fees option \<Rightarrow> call \<Rightarrow> userOperation" where
  "userOperation_of fs c =
     \<lparr>callData = [c],
      maxPriorityFeePerGas = escalate (Option.bind fs fees_maxPriorityFeePerGas),
      maxFeePerGas = escalate (Option.bind fs fees_maxFeePerGas),
      signature = None\<rparr>"

section \<open>The program\<close>

text \<open>The five settings read from the environment; each may be missing.\<close>

record config =
  KURU_API :: "string option"
  KURU_ROUTER :: "address option"
  RPC_URL :: "string option"
  BUNDLER_URL :: "string option"
  PRIVATE_KEY :: "string option"

text \<open>
  What the outside world answers to each awaited call of one run; \<open>None\<close> is a call that
  throws (a rejected promise). Every call is made at most once in a run: the pool query,
  the path search, the creation of the validator and the kernel account (which yields the
  account's address), the allowance read, and for the approval and for the swap the
  submission (which yields the operation's hash) and the wait for the receipt (which
  yields the transaction hash); the swap is signed before it is sent. The last field is
  the checksum test of \<open>isAddress\<close>.
\<close>

record env =
  pools :: "pool list option"
  bestPath :: "routeOutput option"
  account :: "address option"
  allowance :: "nat option"
  approvalOpHash :: "string option"
  approvalReceipt :: "string option"
  swapSignature :: "string option"
  swapOpHash :: "string option"
  swapReceipt :: "string option"
  checksummed :: "address \<Rightarrow> bool"

text \<open>
  The calls the program makes and the lines it logs: a run is the list of them in order,
  with the way it ends, \<^verbatim>\<open>process.exit\<close> with a code or an uncaught exception.
\<close>

datatype event =
    GetAllPools string address address
  | FindBestPath address address jsnum "pool list"
  | ConsoleLog "string list"
  | CreateKernelAccount string
  | ReadAllowance address address address
  | SendUserOperation userOperation
  | WaitForUserOperationReceipt string
  | SignUserOperation userOperation

datatype outcome = Exited int | Threw error

type_synonym run = "event list \<times> outcome"

text \<open>
  An awaited external call, a logged line, and a local computation that may throw, with
  the exception fixed or given by the computation.
\<close>

definition await :: "event \<Rightarrow> error \<Rightarrow> 'a option \<Rightarrow> ('a \<Rightarrow> run) \<Rightarrow> run" where
  "await ev err answer k =
     (case answer of None \<Rightarrow> ([ev], Threw err)
      | Some x \<Rightarrow> (ev # fst (k x), snd (k x)))"

definition emit :: "event \<Rightarrow> run \<Rightarrow> run" where
  "emit ev r = (ev # fst r, snd r)"

definition attempt :: "error \<Rightarrow> 'a option \<Rightarrow> ('a \<Rightarrow> run) \<Rightarrow> run" where
  "attempt err v k = (case v of None \<Rightarrow> ([], Threw err) | Some x \<Rightarrow> k x)"

definition attempt_either :: "error + 'a \<Rightarrow> ('a \<Rightarrow> run) \<Rightarrow> run" where
  "attempt_either v k = (case v of Inl err \<Rightarrow> ([], Threw err) | Inr x \<Rightarrow> k x)"

text \<open>
  Lines 144 to 170 of \<^verbatim>\<open>main\<close>: the swap user operation is built, signed, sent and its
  receipt awaited. A missing router address throws when the call is encoded.
\<close>

definition submit_swap :: "config \<Rightarrow> env \<Rightarrow> int \<Rightarrow> calldata \<Rightarrow> run" where
  "submit_swap cfg w val dat =
     attempt InvalidAddressError (KURU_ROUTER cfg) (\<lambda>routerAddress.
     let userOperation =
           userOperation_of userOpFees \<lparr>call_to = routerAddress, call_value = val, call_data = dat\<rparr>
     in
     await (SignUserOperation userOperation) SignUserOperationError (swapSignature w) (\<lambda>sg.
     await (SendUserOperation (userOperation\<lparr>signature := Some sg\<rparr>)) SendUserOperationError
       (swapOpHash w) (\<lambda>userOpHash.
     await (WaitForUserOperationReceipt userOpHash) ReceiptError (swapReceipt w) (\<lambda>txHash.
     ([ConsoleLog [''op tx hash:'', txHash]], Exited 0)))))"

text \<open>
  Lines 119 to 142 of \<^verbatim>\<open>main\<close>, followed by the rest of the run: the allowance is read
  and an approval is sent and awaited when it is too small. The read (\<^verbatim>\<open>getAllowance\<close>,
  lines 173 to 177) first encodes its arguments and checks the contract's address, so a
  router address that is missing or malformed, or another address that is malformed,
  throws before the chain is asked.
\<close>

definition allowance_guard :: "address \<Rightarrow> config \<Rightarrow> env \<Rightarrow> address \<Rightarrow> int \<Rightarrow> run \<Rightarrow> run" where
  "allowance_guard tokenIn cfg w userAccountAddress amountIn rest =
     (if zeroAddress \<noteq> tokenIn then
        attempt InvalidAddressError (KURU_ROUTER cfg) (\<lambda>routerAddress.
        if \<not> (isAddress (checksummed w) userAccountAddress \<and> isAddress (checksummed w) routerAddress
              \<and> isAddress (checksummed w) tokenIn)
        then ([], Threw InvalidAddressError)
        else
        await (ReadAllowance tokenIn userAccountAddress routerAddress) AllowanceReadError
          (allowance w) (\<lambda>currentAllowance.
        if int currentAllowance < amountIn then
          attempt_either (encodeFunctionData (checksummed w) (Approve routerAddress amountIn)) (\<lambda>approve.
          await (SendUserOperation
                   \<lparr>callData = [\<lparr>call_to = tokenIn, call_value = 0, call_data = approve\<rparr>],
                    maxPriorityFeePerGas = None, maxFeePerGas = None, signature = None\<rparr>)
            SendUserOperationError (approvalOpHash w) (\<lambda>userOpHash1.
          await (WaitForUserOperationReceipt userOpHash1) ReceiptError (approvalReceipt w) (\<lambda>tx.
          emit (ConsoleLog [''approval tx: '', tx]) rest)))
        else rest))
      else rest)"

text \<open>
  The native-currency value of the swap call, line 83:
  \<^verbatim>\<open>routeOutput.nativeSend[0] ? parseEther(size.toFixed(18)) : BigInt(0)\<close>; the first element
  of an empty array is \<^verbatim>\<open>undefined\<close>, which is falsy.
\<close>

definition swap_value :: "bool list \<Rightarrow> int option" where
  "swap_value sends =
     (case sends of
        b # _ \<Rightarrow> if b then Option.bind (toFixed size_in 18) parseEther else Some 0
      | [] \<Rightarrow> Some 0)"

text \<open>
  \<^verbatim>\<open>main\<close>, with the two tokens as parameters. Its first statement, line 45, makes the
  \<^verbatim>\<open>PoolFetcher\<close> from the routing service's endpoint and throws when that setting is
  missing, before any call. A missing private key throws where the signer is made.
\<close>

definition main_with :: "address \<Rightarrow> address \<Rightarrow> config \<Rightarrow> env \<Rightarrow> run" where
  "main_with tokenIn tokenOut cfg w =
     attempt PoolFetcherError (KURU_API cfg) (\<lambda>api.
     await (GetAllPools api tokenIn tokenOut) PoolFetchError (pools w) (\<lambda>ps.
     await (FindBestPath tokenIn tokenOut size_in ps) PathFindError (bestPath w) (\<lambda>routeOutput.
     attempt InvalidDecimalNumberError (minTokenOutAmount (output_val routeOutput)) (\<lambda>minOut.
     attempt InvalidDecimalNumberError amountInWei (\<lambda>amountIn.
     let args = AnyToAnySwap (map orderbook (route_path (route routeOutput)))
                  (isBuy routeOutput) (nativeSend routeOutput)
                  (route_tokenIn (route routeOutput)) (route_tokenOut (route routeOutput))
                  amountIn minOut
     in
     if output_val routeOutput = Fin 0 then ([ConsoleLog [''No route found'']], Exited 0)
     else
     attempt InvalidDecimalNumberError (swap_value (nativeSend routeOutput)) (\<lambda>val.
     attempt_either (encodeFunctionData (checksummed w) args) (\<lambda>dat.
     attempt InvalidPrivateKeyError (PRIVATE_KEY cfg) (\<lambda>privateKey.
     await (CreateKernelAccount privateKey) AccountError (account w) (\<lambda>userAccountAddress.
     emit (ConsoleLog [''smart wallet address:'', userAccountAddress])
       (allowance_guard tokenIn cfg w userAccountAddress amountIn
          (submit_swap cfg w val dat)))))))))))"

definition main :: "config \<Rightarrow> env \<Rightarrow> run" where
  "main cfg w = main_with USDC WIF cfg w"

text \<open>
  The module: the settings are read without any check, the chain client is created, and
  \<^verbatim>\<open>main\<close> is called. Line 35 creates the client over \<^verbatim>\<open>http(rpcUrl)\<close>, whose URL is
  \<^verbatim>\<open>rpcUrl || chain.rpcUrls.default.http[0]\<close>, here \<^verbatim>\<open>rpcUrl\<close> again; viem throws when that
  is falsy, which a missing setting and the empty string are.
\<close>

definition truthy :: "string option \<Rightarrow> string option" where
  "truthy v = (case v of None \<Rightarrow> None | Some s \<Rightarrow> if s = [] then None else Some s)"

definition program :: "config \<Rightarrow> env \<Rightarrow> run" where
  "program cfg w = attempt UrlRequiredError (truthy (RPC_URL cfg)) (\<lambda>url. main cfg w)"

section \<open>Notions used in the statements and proofs\<close>

text \<open>
  The digits \<^verbatim>\<open>toFixed\<close> prints for the integer \<open>n\<close> with \<open>f\<close> fraction digits, before the
  point is put in.
\<close>

definition fixed_digits :: "int \<Rightarrow> nat \<Rightarrow> string" where
  "fixed_digits n f =
     (if length (dec_digits n) \<le> f
      then replicate (f + 1 - length (dec_digits n)) CHR ''0'' @ dec_digits n else dec_digits n)"

text \<open>
  The exponent of the unit in the last place of a positive \<open>x\<close>, and \<open>x\<close> rounded to a
  multiple of that unit: \<open>binary64\<close> without the sign and the overflow test.
\<close>

definition ulp_exp :: "rat \<Rightarrow> int" where
  "ulp_exp x = max (ilog2 x - 52) (- 1074)"

definition rnd :: "rat \<Rightarrow> rat" where
  "rnd x = of_int (round_half_even (x / 2 powi ulp_exp x)) * 2 powi ulp_exp x"

text \<open>The integer nearest to \<open>x * 10^18\<close>, halves away from zero: what \<^verbatim>\<open>toFixed(18)\<close> prints, read back.\<close>

definition to_units :: "rat \<Rightarrow> int" where
  "to_units x = (if x < 0 then - 1 else 1) * \<lfloor>\<bar>x\<bar> * 10 ^ 18 + 1 / 2\<rfloor>"

text \<open>The calls an event carries, and what they are.\<close>

fun event_calls :: "event \<Rightarrow> call list" where
  "event_calls (SendUserOperation op) = callData op"
| "event_calls (SignUserOperation op) = callData op"
| "event_calls _ = []"

fun is_approve :: "calldata \<Rightarrow> bool" where
  "is_approve (Approve _ _) = True"
| "is_approve _ = False"

fun call_amount :: "calldata \<Rightarrow> int" where
  "call_amount (Approve _ amount) = amount"
| "call_amount (AnyToAnySwap _ _ _ _ _ amountIn _) = amountIn"

definition is_approval :: "event \<Rightarrow> bool" where
  "is_approval e = list_ex (\<lambda>c. is_approve (call_data c)) (event_calls e)"

fun is_swap_submission :: "event \<Rightarrow> bool" where
  "is_swap_submission (SendUserOperation op) = list_ex (\<lambda>c. \<not> is_approve (call_data c)) (callData op)"
| "is_swap_submission _ = False"

fun is_allowance_read :: "event \<Rightarrow> bool" where
  "is_allowance_read (ReadAllowance _ _ _) = True"
| "is_allowance_read _ = False"

text \<open>The user operation an event signs or sends, if it does.\<close>

fun event_op :: "event \<Rightarrow> userOperation option" where
  "event_op (SendUserOperation op) = Some op"
| "event_op (SignUserOperation op) = Some op"
| "event_op _ = None"

text \<open>The events of a run that stops before any account call: pool query, path search, account set-up, log lines.\<close>

fun early_event :: "event \<Rightarrow> bool" where
  "early_event (GetAllPools _ _ _) = True"
| "early_event (FindBestPath _ _ _ _) = True"
| "early_event (ConsoleLog _) = True"
| "early_event (CreateKernelAccount _) = True"
| "early_event _ = False"

text \<open>\<open>precedes x y t\<close>: \<open>y\<close> occurs in \<open>t\<close> after the first occurrence of \<open>x\<close>.\<close>

definition precedes :: "'a \<Rightarrow> 'a \<Rightarrow> 'a list \<Rightarrow> bool" where
  "precedes x y t = (y \<in> set (drop 1 (dropWhile (\<lambda>e. e \<noteq> x) t)))"

text \<open>The truthiness of \<^verbatim>\<open>nativeSend[0]\<close>.\<close>

definition first_flag :: "bool list \<Rightarrow> bool" where
  "first_flag bs = (case bs of b # _ \<Rightarrow> b | [] \<Rightarrow> False)"

text \<open>The arguments of the swap call (lines 68 to 76) for an input amount of \<open>10^14\<close>.\<close>

definition swap_args :: "routeOutput \<Rightarrow> int \<Rightarrow> calldata" where
  "swap_args ro mo = AnyToAnySwap (map orderbook (route_path (route ro))) (isBuy ro) (nativeSend ro)
     (route_tokenIn (route ro)) (route_tokenOut (route ro)) (10 ^ 14) mo"

text \<open>The addresses among them: the order book of every hop and the route's two tokens.\<close>

definition route_addresses :: "routeOutput \<Rightarrow> address list" where
  "route_addresses ro =
     map orderbook (route_path (route ro)) @ [route_tokenIn (route ro), route_tokenOut (route ro)]"

text \<open>The approval user operation of lines 122 to 134.\<close>

definition approve_op :: "address \<Rightarrow> address \<Rightarrow> int \<Rightarrow> userOperation" where
  "approve_op token spender amount =
     \<lparr>callData = [\<lparr>call_to = token, call_value = 0, call_data = Approve spender amount\<rparr>],
      maxPriorityFeePerGas = None, maxFeePerGas = None, signature = None\<rparr>"

text \<open>
  Concrete settings and answers, for the examples. The addresses are well formed and in
  lower case, so that no checksum is asked for: a router, two order books, the smart
  account, and the output token as the resolver returns it; then a private key, and the
  hashes and the signature the bundler answers with.
\<close>

definition router0 :: address where
  "router0 = ''0xc816865f172d640d93712c68a7e1f83f3fa63235''"

definition book1 :: address where
  "book1 = ''0xd3af145f1aa1a471b5f0f62c52cf8fcdc9ab55d3''"

definition book2 :: address where
  "book2 = ''0x277bf4a0aac16f19d7bf592feffc8d2d9a890508''"

definition account0 :: address where
  "account0 = ''0x5b1f7c1a0e1b2c3d4e5f60718293a4b5c6d7e8f9''"

definition wif0 :: address where
  "wif0 = ''0xd9d972d687bc511d833fe2550c456fec1a857d2c''"

definition key0 :: string where
  "key0 = ''0x4c0883a69102937d6231471b5dbb6204fe5129617082792ae468d01a3f362318''"

definition approvalOp0 :: string where
  "approvalOp0 = ''0x8d6b1f2e3a4c5d6e7f8091a2b3c4d5e6f708192a3b4c5d6e7f8091a2b3c4d5e6''"

definition approvalTx0 :: string where
  "approvalTx0 = ''0x1a2b3c4d5e6f708192a3b4c5d6e7f8091a2b3c4d5e6f708192a3b4c5d6e7f809''"

definition swapSig0 :: string where
  "swapSig0 = ''0x3f5c7e9a1b2d4f6081a3c5e7092b4d6f8193a5c7e90b2d4f6182a4c6e8f01b3d''"

definition swapOp0 :: string where
  "swapOp0 = ''0x7e8f9a0b1c2d3e4f5061728394a5b6c7d8e9fa0b1c2d3e4f5061728394a5b6c7''"

definition swapTx0 :: string where
  "swapTx0 = ''0x5061728394a5b6c7d8e9fa0b1c2d3e4f5061728394a5b6c7d8e9fa0b1c2d3e4f''"

text \<open>
  All settings present; router address, bundler endpoint and private key missing; a
  route of two hops whose first hop is funded natively; a world in which every call
  succeeds and no address passes for checksummed, with the route's output and the
  allowance as parameters; and the swap call and user operation of that world for an
  output of 100.
\<close>

definition cfg_ok :: config where
  "cfg_ok = \<lparr>KURU_API = Some ''https://api.kuru.example'', KURU_ROUTER = Some router0,
     RPC_URL = Some ''https://rpc.monad.example'', BUNDLER_URL = Some ''https://bundler.example'',
     PRIVATE_KEY = Some key0\<rparr>"

definition cfg_missing :: config where
  "cfg_missing = \<lparr>KURU_API = Some ''https://api.kuru.example'', KURU_ROUTER = None,
     RPC_URL = Some ''https://rpc.monad.example'', BUNDLER_URL = None, PRIVATE_KEY = None\<rparr>"

definition two_hops :: "jsnum \<Rightarrow> routeOutput" where
  "two_hops r = \<lparr>output_val = r,
     route = \<lparr>route_path = [\<lparr>orderbook = book1\<rparr>, \<lparr>orderbook = book2\<rparr>],
              route_tokenIn = USDC, route_tokenOut = wif0\<rparr>,
     isBuy = [False, True], nativeSend = [True, False]\<rparr>"

definition world :: "jsnum \<Rightarrow> nat \<Rightarrow> env" where
  "world r a = \<lparr>pools = Some [\<lparr>orderbook = book1\<rparr>, \<lparr>orderbook = book2\<rparr>],
     bestPath = Some (two_hops r), account = Some account0, allowance = Some a,
     approvalOpHash = Some approvalOp0, approvalReceipt = Some approvalTx0,
     swapSignature = Some swapSig0, swapOpHash = Some swapOp0, swapReceipt = Some swapTx0,
     checksummed = (\<lambda>_. False)\<rparr>"

definition swap_call :: call where
  "swap_call =
     \<lparr>call_to = router0, call_value = 10 ^ 14,
      call_data = AnyToAnySwap [book1, book2] [False, True] [True, False] USDC wif0
        (10 ^ 14) (95 * 10 ^ 18)\<rparr>"

definition swap_op :: userOperation where
  "swap_op =
     \<lparr>callData = [swap_call], maxPriorityFeePerGas = None, maxFeePerGas = None, signature = None\<rparr>"

section \<open>Decimal strings: printing and parsing\<close>

text \<open>
  Digits printed and read back give the number again, and \<^verbatim>\<open>parseUnits\<close> applied to what
  \<^verbatim>\<open>toFixed\<close> prints, with the same number of decimals, is the integer \<^verbatim>\<open>toFixed\<close> chose.
\<close>

declare dec_digits.simps [simp del]

lemma digit_cases: "0 \<le> d \<Longrightarrow> d < 10 \<Longrightarrow> d \<in> {0, 1, 2, 3, 4, 5, 6, 7, 8, 9::int}"
  by simp arith

lemma digit_val_char: "0 \<le> d \<Longrightarrow> d < 10 \<Longrightarrow> digit_val (digit_char d) = d"
  using digit_cases [of d] by (auto simp: digit_val_def digit_char_def)

lemma is_digit_char: "0 \<le> d \<Longrightarrow> d < 10 \<Longrightarrow> is_digit (digit_char d)"
  using digit_cases [of d] by (auto simp: is_digit_def digit_char_def)

lemma is_digit_not_point: "is_digit c \<Longrightarrow> c \<noteq> CHR ''.'' \<and> c \<noteq> CHR ''-''"
  by (auto simp: is_digit_def)

lemma dec_value_snoc: "dec_value (xs @ [c]) = 10 * dec_value xs + digit_val c"
  by (simp add: dec_value_def)

lemma dec_value_Nil: "dec_value [] = 0"
  by (simp add: dec_value_def)

lemma dec_value_zeros: "dec_value (replicate k CHR ''0'' @ xs) = dec_value xs"
  by (induction k) (simp_all add: dec_value_def digit_val_def)

lemma dec_value_dec_digits: "0 \<le> n \<Longrightarrow> dec_value (dec_digits n) = n"
proof (induction n rule: dec_digits.induct)
  case (1 n)
  show ?case
  proof (cases "n < 10")
    case True
    with 1 show ?thesis
      by (subst dec_digits.simps) (simp add: dec_value_def digit_val_char)
  next
    case False
    with 1 have "dec_value (dec_digits (n div 10)) = n div 10" by simp
    with False 1(2) show ?thesis
      by (subst dec_digits.simps) (simp add: dec_value_snoc digit_val_char)
  qed
qed

lemma digits_dec_digits: "0 \<le> n \<Longrightarrow> list_all is_digit (dec_digits n)"
proof (induction n rule: dec_digits.induct)
  case (1 n)
  show ?case
  proof (cases "n < 10")
    case True
    with 1 show ?thesis
      by (subst dec_digits.simps) (simp add: is_digit_char)
  next
    case False
    with 1 have "list_all is_digit (dec_digits (n div 10))" by simp
    with False 1(2) show ?thesis
      by (subst dec_digits.simps) (simp add: is_digit_char)
  qed
qed

lemma dec_digits_nonempty: "dec_digits n \<noteq> []"
  by (subst dec_digits.simps) simp

lemma dec_digits_zero: "dec_digits 0 = ''0''"
  by (subst dec_digits.simps) (simp add: digit_char_def)

lemma takeWhile_zeros: "takeWhile (\<lambda>c. c = z) ys = replicate (length (takeWhile (\<lambda>c. c = z) ys)) z"
  by (induction ys) auto

lemma trim_zeros_split: "\<exists>j. s = trim_zeros s @ replicate j CHR ''0''"
proof -
  let ?P = "\<lambda>c. c = CHR ''0''"
  have "rev s = takeWhile ?P (rev s) @ dropWhile ?P (rev s)" by simp
  then have "s = rev (dropWhile ?P (rev s)) @ rev (takeWhile ?P (rev s))"
    by (metis rev_append rev_rev_ident)
  moreover have "rev (takeWhile ?P (rev s)) = replicate (length (takeWhile ?P (rev s))) CHR ''0''"
    using takeWhile_zeros [of "CHR ''0''" "rev s"] by (metis rev_replicate)
  ultimately show ?thesis unfolding trim_zeros_def by metis
qed

lemma padEnd_trim_zeros: "padEnd (length s) (trim_zeros s) = s"
proof -
  obtain j where j: "s = trim_zeros s @ replicate j CHR ''0''"
    using trim_zeros_split by blast
  then have "length s = length (trim_zeros s) + j"
    by (metis length_append length_replicate)
  then show ?thesis using j by (simp add: padEnd_def)
qed

lemma trim_zeros_digits: "list_all is_digit s \<Longrightarrow> list_all is_digit (trim_zeros s)"
  by (metis list_all_append trim_zeros_split)

lemma length_trim_zeros: "length (trim_zeros s) \<le> length s"
  by (simp add: trim_zeros_def) (metis length_dropWhile_le length_rev)

lemma parseUnits_fixed:
  assumes a: "list_all is_digit a" and b: "list_all is_digit b" and f: "0 < length b"
    and ne: "a \<noteq> []"
  shows "parseUnits (a @ ''.'' @ b) (length b) = Some (dec_value (a @ b))"
    and "parseUnits (''-'' @ a @ ''.'' @ b) (length b) = Some (- dec_value (a @ b))"
proof -
  let ?np = "\<lambda>c. c \<noteq> CHR ''.''"
  have anp: "\<And>x. x \<in> set a \<Longrightarrow> ?np x"
    using a is_digit_not_point by (auto simp: list_all_iff)
  have tw: "takeWhile ?np (a @ ''.'' @ b) = a"
    using anp by (simp add: takeWhile_append2)
  have dw: "dropWhile ?np (a @ ''.'' @ b) = ''.'' @ b"
    using anp by (simp add: dropWhile_append2)
  have hd: "hd (a @ ''.'' @ b) \<noteq> CHR ''-''"
    using a ne is_digit_not_point by (cases a) auto
  have tz: "list_all is_digit (trim_zeros b)" using b by (rule trim_zeros_digits)
  have len: "\<not> length b < length (trim_zeros b)" using length_trim_zeros [of b] by simp
  show "parseUnits (a @ ''.'' @ b) (length b) = Some (dec_value (a @ b))"
    unfolding parseUnits_def Let_def using hd tw dw a tz len f
    by (simp add: padEnd_trim_zeros)
  show "parseUnits (''-'' @ a @ ''.'' @ b) (length b) = Some (- dec_value (a @ b))"
    unfolding parseUnits_def Let_def using tw dw a tz len f
    by (simp add: padEnd_trim_zeros)
qed

lemma fixed_digits_props:
  assumes "0 \<le> n"
  shows "f < length (fixed_digits n f)" "list_all is_digit (fixed_digits n f)"
    "dec_value (fixed_digits n f) = n"
proof -
  have z: "list_all is_digit (replicate k CHR ''0'')" for k
    by (simp add: list_all_iff is_digit_def)
  show "f < length (fixed_digits n f)"
    using dec_digits_nonempty [of n] by (auto simp: fixed_digits_def)
  show "list_all is_digit (fixed_digits n f)"
    using assms z by (simp add: fixed_digits_def digits_dec_digits)
  show "dec_value (fixed_digits n f) = n"
    using assms by (simp add: fixed_digits_def dec_value_zeros dec_value_dec_digits)
qed

lemma toFixed_eq:
  assumes "\<bar>x\<bar> < 10 ^ 21" "0 < f"
  shows "toFixed (Fin x) f =
    Some ((if x < 0 then ''-'' else [])
        @ take (length (fixed_digits \<lfloor>\<bar>x\<bar> * 10 ^ f + 1 / 2\<rfloor> f) - f) (fixed_digits \<lfloor>\<bar>x\<bar> * 10 ^ f + 1 / 2\<rfloor> f)
        @ ''.''
        @ drop (length (fixed_digits \<lfloor>\<bar>x\<bar> * 10 ^ f + 1 / 2\<rfloor> f) - f) (fixed_digits \<lfloor>\<bar>x\<bar> * 10 ^ f + 1 / 2\<rfloor> f))"
  using assms by (simp add: Let_def fixed_digits_def dec_digits_zero)

lemma parse_toFixed:
  assumes x: "\<bar>x\<bar> < 10 ^ 21" and f: "0 < f"
  shows "Option.bind (toFixed (Fin x) f) (\<lambda>c. parseUnits c f)
    = Some ((if x < 0 then - 1 else 1) * \<lfloor>\<bar>x\<bar> * 10 ^ f + 1 / 2\<rfloor>)"
proof -
  define n where "n = \<lfloor>\<bar>x\<bar> * 10 ^ f + 1 / 2\<rfloor>"
  define m where "m = fixed_digits n f"
  define a where "a = take (length m - f) m"
  define b where "b = drop (length m - f) m"
  have n0: "0 \<le> n" unfolding n_def by simp
  have len: "f < length m" and dig: "list_all is_digit m" and val: "dec_value m = n"
    unfolding m_def using fixed_digits_props [OF n0] by auto
  have ab: "a @ b = m" unfolding a_def b_def by simp
  have lb: "length b = f" unfolding b_def using len by simp
  have ane: "a \<noteq> []" unfolding a_def using len by (cases m) auto
  have da: "list_all is_digit a" and db: "list_all is_digit b"
    using dig ab by (metis list_all_append)+
  have tf: "toFixed (Fin x) f = Some ((if x < 0 then ''-'' else []) @ a @ ''.'' @ b)"
    unfolding a_def b_def m_def n_def using toFixed_eq [OF x f] by simp
  have p1: "parseUnits (a @ ''.'' @ b) f = Some (dec_value (a @ b))"
    and p2: "parseUnits (''-'' @ a @ ''.'' @ b) f = Some (- dec_value (a @ b))"
    using parseUnits_fixed [OF da db _ ane] lb f by auto
  show ?thesis
    using tf p1 p2 ab val by (simp add: n_def)
qed

section \<open>The binary exponent and rounding\<close>

text \<open>
  \<open>ilog2\<close> is the binary exponent; rounding to nearest is monotone and within half a unit;
  hence \<open>binary64\<close> is monotone on the numbers that are not negative, and a value can be
  computed from its exponent and its significand.
\<close>

lemma bitlen_ge1: "0 < n \<Longrightarrow> 1 \<le> bitlen n"
  using bitlen_eq_zero_iff [of n] bitlen_nonneg [of n] by linarith

lemma ilog2_bounds:
  assumes "0 < x"
  shows "2 powi ilog2 x \<le> x" and "x < 2 powi (ilog2 x + 1)"
proof -
  have "2 powi ilog2 x \<le> x \<and> x < 2 powi (ilog2 x + 1)"
  proof (cases "1 \<le> x")
    case True
    define n where "n = \<lfloor>x\<rfloor>"
    have n1: "1 \<le> n" unfolding n_def using True by simp
    then have n0: "0 < n" by simp
    define b where "b = bitlen n"
    have b1: "1 \<le> b" unfolding b_def using bitlen_ge1 [OF n0] .
    have lo: "2 ^ nat (b - 1) \<le> n" and hi: "n < 2 ^ nat b"
      unfolding b_def using bitlen_bounds [OF n0] by auto
    have k: "ilog2 x = b - 1" using True by (simp add: ilog2_def n_def b_def)
    have "(2::rat) powi (b - 1) = of_int (2 ^ nat (b - 1))"
      using b1 by (simp add: power_int_def)
    also have "\<dots> \<le> of_int n" using lo by (simp only: of_int_le_iff)
    also have "\<dots> \<le> x" unfolding n_def by simp
    finally have 1: "2 powi (b - 1) \<le> x" .
    have "n + 1 \<le> 2 ^ nat b" using hi by simp
    then have "(of_int (n + 1) :: rat) \<le> of_int (2 ^ nat b)" by (simp only: of_int_le_iff)
    moreover have "x < of_int (n + 1)" unfolding n_def by linarith
    ultimately have "x < of_int (2 ^ nat b)" by linarith
    also have "\<dots> = (2::rat) powi b" using b1 by (simp add: power_int_def)
    finally have 2: "x < 2 powi b" .
    show ?thesis using 1 2 k by simp
  next
    case False
    define y where "y = 1 / x"
    have y1: "1 < y" unfolding y_def using False assms by simp
    define c where "c = \<lceil>y\<rceil>"
    have c2: "2 \<le> c" unfolding c_def using y1 by linarith
    then have c0: "0 < c - 1" by simp
    define j where "j = bitlen (c - 1)"
    have j1: "1 \<le> j" unfolding j_def using bitlen_ge1 [OF c0] .
    have lo: "2 ^ nat (j - 1) \<le> c - 1" and hi: "c - 1 < 2 ^ nat j"
      unfolding j_def using bitlen_bounds [OF c0] by auto
    have k: "ilog2 x = - j" using False by (simp add: ilog2_def y_def c_def j_def)
    have yc: "of_int (c - 1) < y" "y \<le> of_int c" unfolding c_def by linarith+
    have "(of_int (2 ^ nat (j - 1)) :: rat) \<le> of_int (c - 1)" using lo by (simp only: of_int_le_iff)
    then have "(2::rat) ^ nat (j - 1) < y" using yc(1) by simp
    then have "1 / y < 1 / (2::rat) ^ nat (j - 1)"
      by (intro divide_strict_left_mono) (auto intro: mult_pos_pos simp: y1 less_trans [OF zero_less_one y1])
    moreover have "1 / y = x" unfolding y_def by simp
    moreover have "1 / (2::rat) ^ nat (j - 1) = 2 powi (- j + 1)"
      using j1 by (cases "j = 1") (auto simp: power_int_def field_simps nat_diff_distrib)
    ultimately have 2: "x < 2 powi (- j + 1)" by simp
    have "c \<le> 2 ^ nat j" using hi by simp
    then have "(of_int c :: rat) \<le> of_int (2 ^ nat j)" by (simp only: of_int_le_iff)
    also have "\<dots> = (2::rat) ^ nat j" by simp
    finally have "y \<le> (2::rat) ^ nat j" using yc(2) by linarith
    then have "1 / (2::rat) ^ nat j \<le> 1 / y"
      using y1 by (intro divide_left_mono) auto
    moreover have "1 / (2::rat) ^ nat j = 2 powi (- j)"
      using j1 by (auto simp: power_int_def field_simps)
    ultimately have 1: "2 powi (- j) \<le> x" using \<open>1 / y = x\<close> by simp
    show ?thesis using 1 2 k by simp
  qed
  then show "2 powi ilog2 x \<le> x" and "x < 2 powi (ilog2 x + 1)" by auto
qed

lemma ilog2_unique:
  assumes "0 < x" "2 powi k \<le> x" "x < 2 powi (k + 1)"
  shows "ilog2 x = k"
proof -
  have a: "(2::rat) powi ilog2 x < 2 powi (k + 1)"
    using ilog2_bounds(1) [OF assms(1)] assms(3) by linarith
  have b: "(2::rat) powi k < 2 powi (ilog2 x + 1)"
    using ilog2_bounds(2) [OF assms(1)] assms(2) by linarith
  have "ilog2 x < k + 1"
  proof (rule ccontr)
    assume "\<not> ilog2 x < k + 1"
    then have "(2::rat) powi (k + 1) \<le> 2 powi ilog2 x"
      by (intro power_int_increasing) auto
    with a show False by simp
  qed
  moreover have "k < ilog2 x + 1"
  proof (rule ccontr)
    assume "\<not> k < ilog2 x + 1"
    then have "(2::rat) powi (ilog2 x + 1) \<le> 2 powi k"
      by (intro power_int_increasing) auto
    with b show False by simp
  qed
  ultimately show ?thesis by simp
qed

lemma ilog2_mono:
  assumes "0 < x" "x \<le> y"
  shows "ilog2 x \<le> ilog2 y"
proof (rule ccontr)
  assume "\<not> ilog2 x \<le> ilog2 y"
  then have "(2::rat) powi (ilog2 y + 1) \<le> 2 powi ilog2 x"
    by (intro power_int_increasing) auto
  moreover have "y < 2 powi (ilog2 y + 1)" using ilog2_bounds(2) [of y] assms by simp
  moreover have "2 powi ilog2 x \<le> x" using ilog2_bounds(1) [OF assms(1)] .
  ultimately show False using assms(2) by linarith
qed

lemma rhe_cases: "round_half_even x = \<lfloor>x\<rfloor> \<or> round_half_even x = \<lfloor>x\<rfloor> + 1"
  by (simp add: round_half_even_def Let_def)

lemma rhe_of_int: "round_half_even (of_int n) = n"
  by (simp add: round_half_even_def Let_def)

lemma rhe_ge: "of_int a \<le> x \<Longrightarrow> a \<le> round_half_even x"
  using rhe_cases [of x] le_floor_iff [of a x] by linarith

lemma rhe_le: "x \<le> of_int b \<Longrightarrow> round_half_even x \<le> b"
proof (cases "x = of_int b")
  case True
  then show ?thesis by (simp add: rhe_of_int)
next
  case False
  assume "x \<le> of_int b"
  with False have "x < of_int b" by simp
  then have "\<lfloor>x\<rfloor> < b" by (simp add: floor_less_iff)
  then show ?thesis using rhe_cases [of x] by linarith
qed

lemma rhe_mono: "x \<le> y \<Longrightarrow> round_half_even x \<le> round_half_even y"
proof (cases "\<lfloor>x\<rfloor> = \<lfloor>y\<rfloor>")
  case True
  assume "x \<le> y"
  then show ?thesis using True
    by (auto simp: round_half_even_def Let_def)
next
  case False
  assume "x \<le> y"
  then have "\<lfloor>x\<rfloor> \<le> \<lfloor>y\<rfloor>" by (rule floor_mono)
  with False have "\<lfloor>x\<rfloor> + 1 \<le> \<lfloor>y\<rfloor>" by simp
  then show ?thesis using rhe_cases [of x] rhe_cases [of y] by linarith
qed

lemma rhe_error: "\<bar>of_int (round_half_even x) - x\<bar> \<le> 1 / 2"
  unfolding round_half_even_def Let_def
  by (auto simp: abs_if) linarith+

lemma binary64_rnd:
  "x \<noteq> 0 \<Longrightarrow> binary64 x = (if 2 powi 1024 \<le> rnd \<bar>x\<bar> then NonFinite else Fin (sgn x * rnd \<bar>x\<bar>))"
  by (simp add: binary64_def rnd_def ulp_exp_def Let_def)

lemma binary64_zero: "binary64 0 = Fin 0"
  by (simp add: binary64_def)

lemma rnd_nonneg: "0 \<le> x \<Longrightarrow> 0 \<le> rnd x"
proof -
  assume "0 \<le> x"
  then have "of_int 0 \<le> x / 2 powi ulp_exp x" by simp
  then have "0 \<le> round_half_even (x / 2 powi ulp_exp x)" by (rule rhe_ge)
  then show ?thesis by (simp add: rnd_def)
qed

lemma rnd_upper:
  assumes "0 < x"
  shows "rnd x \<le> 2 powi (ulp_exp x + 53)"
proof -
  define e where "e = ulp_exp x"
  have "x < 2 powi (ilog2 x + 1)" using ilog2_bounds(2) [OF assms] .
  also have "\<dots> \<le> 2 powi (e + 53)"
    by (intro power_int_increasing) (auto simp: e_def ulp_exp_def)
  also have "\<dots> = 2 powi e * 2 ^ 53" by (simp add: power_int_add)
  finally have "x / 2 powi e < 2 ^ 53" by (simp add: field_simps)
  then have "x / 2 powi e \<le> of_int (2 ^ 53)" by simp
  then have "round_half_even (x / 2 powi e) \<le> 2 ^ 53" by (rule rhe_le)
  then have "(of_int (round_half_even (x / 2 powi e)) :: rat) \<le> of_int (2 ^ 53)"
    by (simp only: of_int_le_iff)
  then have "of_int (round_half_even (x / 2 powi e)) * 2 powi e \<le> 2 ^ 53 * (2::rat) powi e"
    by (intro mult_right_mono) auto
  then show ?thesis by (simp add: rnd_def e_def power_int_add mult.commute)
qed

lemma rnd_lower:
  assumes "0 < x" "- 1074 < ulp_exp x"
  shows "2 powi (ulp_exp x + 52) \<le> rnd x"
proof -
  define e where "e = ulp_exp x"
  have e: "e + 52 = ilog2 x" using assms(2) by (simp add: e_def ulp_exp_def max_def split: if_splits)
  have "2 powi e * 2 ^ 52 = (2::rat) powi (e + 52)" by (simp add: power_int_add)
  also have "\<dots> \<le> x" unfolding e using ilog2_bounds(1) [OF assms(1)] .
  finally have "of_int (2 ^ 52) \<le> x / 2 powi e" by (simp add: field_simps)
  then have "2 ^ 52 \<le> round_half_even (x / 2 powi e)" by (rule rhe_ge)
  then have "(of_int (2 ^ 52) :: rat) \<le> of_int (round_half_even (x / 2 powi e))"
    by (simp only: of_int_le_iff)
  then have "2 ^ 52 * (2::rat) powi e \<le> of_int (round_half_even (x / 2 powi e)) * 2 powi e"
    by (intro mult_right_mono) auto
  then show ?thesis by (simp add: rnd_def e_def power_int_add mult.commute)
qed

lemma ulp_exp_mono: "0 < x \<Longrightarrow> x \<le> y \<Longrightarrow> ulp_exp x \<le> ulp_exp y"
  using ilog2_mono [of x y] by (simp add: ulp_exp_def)

lemma rnd_mono:
  assumes "0 < x" "x \<le> y"
  shows "rnd x \<le> rnd y"
proof (cases "ulp_exp x = ulp_exp y")
  case True
  have "x / 2 powi ulp_exp y \<le> y / 2 powi ulp_exp y"
    using assms(2) by (intro divide_right_mono) auto
  then have "round_half_even (x / 2 powi ulp_exp y) \<le> round_half_even (y / 2 powi ulp_exp y)"
    by (rule rhe_mono)
  then have "(of_int (round_half_even (x / 2 powi ulp_exp y)) :: rat)
      \<le> of_int (round_half_even (y / 2 powi ulp_exp y))" by (simp only: of_int_le_iff)
  then show ?thesis unfolding rnd_def True
    by (intro mult_right_mono) auto
next
  case False
  have y0: "0 < y" using assms by simp
  have lt: "ulp_exp x < ulp_exp y" using ulp_exp_mono [OF assms] False by simp
  moreover have "- 1074 \<le> ulp_exp x" by (simp add: ulp_exp_def)
  ultimately have n: "- 1074 < ulp_exp y" by simp
  have "rnd x \<le> 2 powi (ulp_exp x + 53)" using rnd_upper [OF assms(1)] .
  also have "\<dots> \<le> 2 powi (ulp_exp y + 52)"
    using lt by (intro power_int_increasing) auto
  also have "\<dots> \<le> rnd y" using rnd_lower [OF y0 n] .
  finally show ?thesis .
qed

lemma binary64_mono:
  assumes "0 \<le> x" "x \<le> y" "binary64 y = Fin b"
  shows "\<exists>a. binary64 x = Fin a \<and> 0 \<le> a \<and> a \<le> b"
proof (cases "x = 0")
  case True
  show ?thesis
  proof (cases "y = 0")
    case True
    with \<open>x = 0\<close> assms(3) show ?thesis by (simp add: binary64_zero)
  next
    case False
    then have y0: "0 < y" using assms by simp
    then have "b = rnd y" using assms(3) False
      by (simp add: binary64_rnd split: if_splits)
    then have "0 \<le> b" using rnd_nonneg [of y] y0 by simp
    then show ?thesis using True by (simp add: binary64_zero)
  qed
next
  case False
  then have x0: "0 < x" using assms by simp
  then have y0: "0 < y" using assms by simp
  have fin: "\<not> 2 powi 1024 \<le> rnd y" and b: "b = rnd y"
    using assms(3) y0 by (auto simp: binary64_rnd split: if_splits)
  have le: "rnd x \<le> rnd y" using rnd_mono [OF x0 assms(2)] .
  then have "\<not> 2 powi 1024 \<le> rnd x" using fin by linarith
  then have "binary64 x = Fin (rnd x)" using x0 by (simp add: binary64_rnd)
  then show ?thesis using le b rnd_nonneg [of x] x0 by simp
qed

lemma rhe_unique: "\<bar>x - of_int m\<bar> < 1 / 2 \<Longrightarrow> round_half_even x = m"
  unfolding round_half_even_def Let_def
  by (auto simp: abs_if split: if_splits) linarith+

lemma binary64_eval:
  assumes "0 < x" "2 powi k \<le> x" "x < 2 powi (k + 1)" "e = max (k - 52) (- 1074)"
    "\<bar>x / 2 powi e - of_int m\<bar> < 1 / 2" "(of_int m :: rat) * 2 powi e < 2 powi 1024"
  shows "binary64 x = Fin (of_int m * 2 powi e)"
proof -
  have "ilog2 x = k" using assms(1-3) by (rule ilog2_unique)
  then have e: "ulp_exp x = e" using assms(4) by (simp add: ulp_exp_def)
  have "round_half_even (x / 2 powi e) = m" using assms(5) by (rule rhe_unique)
  then have "rnd x = of_int m * 2 powi e" by (simp add: rnd_def e)
  then show ?thesis using assms(1,6) by (simp add: binary64_rnd)
qed

lemma size_in_value: "size_in = Fin (7378697629483821 / 2 ^ 66)"
  unfolding size_in_def
  using binary64_eval [of "1 / 10000" "- 14" "- 66" 7378697629483821]
  by simp

section \<open>The quote in closed form\<close>

text \<open>The quote without strings, and its value at the inputs used below.\<close>

lemma floor_rat_numeral: "\<lfloor>numeral a / numeral b :: rat\<rfloor> = numeral a div numeral b"
  using floor_divide_of_int_eq [of "numeral a" "numeral b", where ?'a = rat] by simp

lemma floor_rat_one: "\<lfloor>1 / numeral b :: rat\<rfloor> = 1 div numeral b"
  using floor_divide_of_int_eq [of 1 "numeral b", where ?'a = rat] by simp

lemma parse_toFixed_18:
  "(case toFixed (Fin x) 18 of None \<Rightarrow> None | Some c \<Rightarrow> parseUnits c 18)
     = (if 10 ^ 21 \<le> \<bar>x\<bar> then None else Some (to_units x))"
proof (cases "10 ^ 21 \<le> \<bar>x\<bar>")
  case True
  then show ?thesis by simp
next
  case False
  then have "\<bar>x\<bar> < 10 ^ 21" by simp
  from parse_toFixed [OF this, of 18] False show ?thesis
    by (cases "toFixed (Fin x) 18") (simp_all add: to_units_def del: toFixed.simps)
qed

lemma minOutput_eq:
  "minOutput r s =
     (case num_divide (num_times r (num_minus (Fin 100) s)) 100 of
        NonFinite \<Rightarrow> None
      | Fin x \<Rightarrow> if 10 ^ 21 \<le> \<bar>x\<bar> then None else Some (to_units x))"
proof (cases "num_divide (num_times r (num_minus (Fin 100) s)) 100")
  case (Fin x)
  then show ?thesis
    using parse_toFixed_18 [of x] unfolding minOutput_def clippedOutput_def outTokenDecimals_def
    by (simp del: toFixed.simps)
next
  case NonFinite
  then show ?thesis by (simp add: minOutput_def clippedOutput_def)
qed

lemma amountInWei_value: "amountInWei = Some (10 ^ 14)"
  using parse_toFixed_18 [of "7378697629483821 / 2 ^ 66"]
  unfolding amountInWei_def size_in_value outTokenDecimals_def
  by (simp add: to_units_def floor_rat_numeral del: toFixed.simps)

lemma binary64_95: "binary64 95 = Fin 95"
  using binary64_eval [of 95 6 "- 46" 6685030696878080] by simp

lemma binary64_285: "binary64 285 = Fin 285"
  using binary64_eval [of 285 8 "- 44" 5013773022658560] by simp

lemma binary64_9500: "binary64 9500 = Fin 9500"
  using binary64_eval [of 9500 13 "- 39" 5222680231936000] by simp

lemma binary64_2_85: "binary64 (57 / 20) = Fin (6417629469002957 / 2 ^ 51)"
  using binary64_eval [of "57 / 20" 1 "- 51" 6417629469002957] by simp

lemma minTokenOutAmount_3: "minTokenOutAmount (Fin 3) = Some 2850000000000000089"
  by (simp add: minTokenOutAmount_def minOutput_eq slippagePercentage_def binary64_95 binary64_285
      binary64_2_85 to_units_def floor_rat_numeral)

lemma minTokenOutAmount_100: "minTokenOutAmount (Fin 100) = Some (95 * 10 ^ 18)"
  by (simp add: minTokenOutAmount_def minOutput_eq slippagePercentage_def binary64_95 binary64_9500
      to_units_def floor_rat_numeral)

lemma minTokenOutAmount_0: "minTokenOutAmount (Fin 0) = Some 0"
  by (simp add: minTokenOutAmount_def minOutput_eq slippagePercentage_def binary64_95 binary64_zero
      to_units_def floor_rat_one)

section \<open>Monotonicity and accuracy of the quote\<close>

text \<open>
  Two roundings to binary64 and one to the unit: each is monotone, and together they move
  the quote by at most \<open>1 + X * 10^18 / 2^51\<close> units from the exact value \<open>X\<close>.
\<close>

lemma binary64_100: "binary64 100 = Fin 100"
  using binary64_eval [of 100 6 "- 46" 7036874417766400] by simp

lemma coefficient:
  assumes "0 \<le> s" "s \<le> 100"
  shows "\<exists>c. num_minus (Fin 100) (Fin s) = Fin c \<and> 0 \<le> c \<and> c \<le> 100"
  using binary64_mono [of "100 - s" 100 100] assms binary64_100 by simp

lemma coefficient_mono:
  assumes "0 \<le> s1" "s1 \<le> s2" "s2 \<le> 100"
  shows "\<exists>c1 c2. num_minus (Fin 100) (Fin s1) = Fin c1 \<and> num_minus (Fin 100) (Fin s2) = Fin c2
     \<and> 0 \<le> c2 \<and> c2 \<le> c1"
proof -
  obtain c1 where c1: "num_minus (Fin 100) (Fin s1) = Fin c1"
    using coefficient [of s1] assms by auto
  then have "binary64 (100 - s1) = Fin c1" by simp
  from binary64_mono [of "100 - s2" "100 - s1" c1, OF _ _ this] assms
  show ?thesis using c1 by auto
qed

lemma clip_mono:
  assumes "0 \<le> r1" "r1 \<le> r2" "0 \<le> c1" "c1 \<le> c2"
    "num_divide (num_times (Fin r2) (Fin c2)) 100 = Fin d2"
  shows "\<exists>d1. num_divide (num_times (Fin r1) (Fin c1)) 100 = Fin d1 \<and> 0 \<le> d1 \<and> d1 \<le> d2"
proof -
  obtain p2 where p2: "binary64 (r2 * c2) = Fin p2"
    using assms(5) by (cases "binary64 (r2 * c2)") auto
  have "0 \<le> r1 * c1" "r1 * c1 \<le> r2 * c2"
    using assms(1-4) by (auto intro: mult_mono)
  from binary64_mono [OF this p2]
  obtain p1 where p1: "binary64 (r1 * c1) = Fin p1" "0 \<le> p1" "p1 \<le> p2" by auto
  have d2: "binary64 (p2 / 100) = Fin d2" using assms(5) p2 by simp
  have "0 \<le> p1 / 100" "p1 / 100 \<le> p2 / 100" using p1(2,3) by auto
  from binary64_mono [OF this d2] p1(1) show ?thesis by auto
qed

lemma to_units_nonneg: "0 \<le> x \<Longrightarrow> to_units x = \<lfloor>x * 10 ^ 18 + 1 / 2\<rfloor>"
  by (simp add: to_units_def)

lemma to_units_mono: "0 \<le> x \<Longrightarrow> x \<le> y \<Longrightarrow> 0 \<le> to_units x \<and> to_units x \<le> to_units y"
  by (auto simp: to_units_nonneg intro!: floor_mono)

lemma minOutput_Some:
  "minOutput (Fin r) (Fin s) = Some m \<longleftrightarrow>
     (\<exists>c d. num_minus (Fin 100) (Fin s) = Fin c \<and> num_divide (num_times (Fin r) (Fin c)) 100 = Fin d
        \<and> \<bar>d\<bar> < 10 ^ 21 \<and> m = to_units d)"
proof (cases "binary64 (100 - s)")
  case (Fin c)
  then show ?thesis
    by (cases "num_divide (num_times (Fin r) (Fin c)) 100") (auto simp: minOutput_eq)
next
  case NonFinite
  then show ?thesis by (simp add: minOutput_eq)
qed

lemma minOutput_mono_core:
  assumes "0 \<le> r1" "r1 \<le> r2" "0 \<le> s1" "s1 \<le> s2" "s2 \<le> 100"
    "minOutput (Fin r2) (Fin s1) = Some m"
  shows "\<exists>m'. minOutput (Fin r1) (Fin s2) = Some m' \<and> 0 \<le> m' \<and> m' \<le> m"
proof -
  obtain c1 c2 where c: "num_minus (Fin 100) (Fin s1) = Fin c1" "num_minus (Fin 100) (Fin s2) = Fin c2"
    "0 \<le> c2" "c2 \<le> c1"
    using coefficient_mono [OF assms(3-5)] by auto
  obtain d where d: "num_divide (num_times (Fin r2) (Fin c1)) 100 = Fin d" "\<bar>d\<bar> < 10 ^ 21" "m = to_units d"
    using assms(6) c(1) unfolding minOutput_Some by auto
  obtain d' where d': "num_divide (num_times (Fin r1) (Fin c2)) 100 = Fin d'" "0 \<le> d'" "d' \<le> d"
    using clip_mono [OF assms(1,2) c(3,4) d(1)] by auto
  have "\<bar>d'\<bar> < 10 ^ 21" using d'(2,3) d(2) by simp
  then have "minOutput (Fin r1) (Fin s2) = Some (to_units d')"
    unfolding minOutput_Some using c(2) d'(1) by auto
  then show ?thesis using to_units_mono [OF d'(2,3)] d(3) by simp
qed

lemma minOutput_full_slippage: "minOutput (Fin r) (Fin 100) = Some 0"
  by (simp add: minOutput_eq binary64_zero to_units_def floor_rat_one)

lemma binary64_100_2pm19: "binary64 (25 / 131072) = Fin (25 / 131072)"
  using binary64_eval [of "25 / 131072" "- 13" "- 65" 7036874417766400] by simp

lemma binary64_2pm19: "binary64 (1 / 524288) = Fin (1 / 524288)"
  using binary64_eval [of "1 / 524288" "- 19" "- 71" 4503599627370496] by simp

lemma rnd_error:
  assumes "0 < x"
  shows "\<bar>rnd x - x\<bar> \<le> x / 2 ^ 53 + 2 powi (- 1075)"
proof -
  define e where "e = ulp_exp x"
  define q where "q = x / 2 powi e"
  have x: "x = q * 2 powi e" by (simp add: q_def)
  have "rnd x - x = (of_int (round_half_even q) - q) * 2 powi e"
    unfolding rnd_def e_def [symmetric] q_def [symmetric] using x by (simp add: algebra_simps)
  then have "\<bar>rnd x - x\<bar> = \<bar>of_int (round_half_even q) - q\<bar> * 2 powi e"
    by (simp add: abs_mult)
  also have "\<dots> \<le> (1 / 2) * 2 powi e"
    using rhe_error [of q] by (intro mult_right_mono) auto
  finally have err: "\<bar>rnd x - x\<bar> \<le> 2 powi e / 2" by simp
  show ?thesis
  proof (cases "e = - 1074")
    case True
    have "(2::rat) powi (- 1074) / 2 = 2 powi (- 1075)"
      using power_int_add [of "2::rat" "- 1074" "- 1"] by simp
    then show ?thesis using err True assms by simp
  next
    case False
    then have e: "e = ilog2 x - 52" by (simp add: e_def ulp_exp_def max_def split: if_splits)
    have "(2::rat) powi e = 2 powi ilog2 x * 2 powi (- 52)"
      unfolding e using power_int_add [of "2::rat" "ilog2 x" "- 52"] by simp
    also have "\<dots> \<le> x * 2 powi (- 52)"
      using ilog2_bounds(1) [OF assms] by (intro mult_right_mono) auto
    also have "\<dots> = x / 2 ^ 52" by (simp add: power_int_minus field_simps)
    finally have "2 powi e / 2 \<le> x / 2 ^ 53" by simp
    moreover have "0 \<le> (2::rat) powi (- 1075)" by simp
    ultimately show ?thesis using err by linarith
  qed
qed

lemma binary64_error:
  assumes "0 \<le> x" "binary64 x = Fin y"
  shows "\<bar>y - x\<bar> \<le> x / 2 ^ 53 + 2 powi (- 1075)"
proof (cases "x = 0")
  case True
  with assms(2) show ?thesis by (simp add: binary64_zero)
next
  case False
  then have x0: "0 < x" using assms(1) by simp
  then have "y = rnd x" using assms(2) by (auto simp: binary64_rnd split: if_splits)
  then show ?thesis using rnd_error [OF x0] by simp
qed

lemma tiny: "(2::rat) powi (- 1075) \<le> 1 / 2 ^ 100"
proof -
  have "(2::rat) powi (- 1075) \<le> 2 powi (- 100)"
    by (intro power_int_increasing) auto
  then show ?thesis by (simp add: power_int_minus field_simps)
qed

lemma two_roundings:
  fixes p d x t :: rat
  assumes "p - x \<le> x / 2 ^ 53 + t" "- (p - x) \<le> x / 2 ^ 53 + t"
    "d - p / 100 \<le> p / 100 / 2 ^ 53 + t" "- (d - p / 100) \<le> p / 100 / 2 ^ 53 + t"
    "0 \<le> t" "t \<le> 1 / 2 ^ 100" "0 \<le> x"
  shows "d - x / 100 \<le> x / 100 * (1 / 2 ^ 52 + 1 / 2 ^ 106) + 2 / 2 ^ 100"
    "- (d - x / 100) \<le> x / 100 * (1 / 2 ^ 52 + 1 / 2 ^ 106) + 2 / 2 ^ 100"
  using assms by (simp_all add: field_simps)

lemma nearest_unit:
  fixes d X :: rat and m :: int
  assumes "rat_of_int m \<le> d * 10 ^ 18 + 1 / 2" "d * 10 ^ 18 + 1 / 2 < rat_of_int m + 1" "0 \<le> X"
    "d - X \<le> X * (1 / 2 ^ 52 + 1 / 2 ^ 106) + 2 / 2 ^ 100"
    "- (d - X) \<le> X * (1 / 2 ^ 52 + 1 / 2 ^ 106) + 2 / 2 ^ 100"
  shows "rat_of_int m - X * 10 ^ 18 \<le> 1 + X * 10 ^ 18 / 2 ^ 51"
    "- (rat_of_int m - X * 10 ^ 18) \<le> 1 + X * 10 ^ 18 / 2 ^ 51"
  using assms by (simp_all add: field_simps)

lemma clip_error:
  assumes "0 \<le> r" "0 \<le> c" "num_divide (num_times (Fin r) (Fin c)) 100 = Fin d"
  shows "\<bar>d - r * c / 100\<bar> \<le> (r * c / 100) * (1 / 2 ^ 52 + 1 / 2 ^ 106) + 2 / 2 ^ 100"
proof -
  define x where "x = r * c"
  have x0: "0 \<le> x" unfolding x_def using assms(1,2) by simp
  obtain p where p: "binary64 x = Fin p"
    using assms(3) unfolding x_def by (cases "binary64 (r * c)") auto
  have p0: "0 \<le> p" using binary64_mono [OF x0 order_refl p] p by simp
  have d: "binary64 (p / 100) = Fin d" using assms(3) p unfolding x_def by simp
  define t :: rat where "t = 2 powi (- 1075)"
  have t: "0 \<le> t" "t \<le> 1 / 2 ^ 100" unfolding t_def using tiny by auto
  have e1: "p - x \<le> x / 2 ^ 53 + t" "- (p - x) \<le> x / 2 ^ 53 + t"
    using binary64_error [OF x0 p] by (simp_all add: t_def abs_le_iff)
  have e2: "d - p / 100 \<le> p / 100 / 2 ^ 53 + t" "- (d - p / 100) \<le> p / 100 / 2 ^ 53 + t"
    using binary64_error [OF _ d] p0 by (simp_all add: t_def abs_le_iff)
  show ?thesis
    unfolding x_def [symmetric] abs_le_iff using two_roundings [OF e1 e2 t x0] by blast
qed

lemma units_error:
  assumes "0 \<le> X" "0 \<le> d" "\<bar>d - X\<bar> \<le> X * (1 / 2 ^ 52 + 1 / 2 ^ 106) + 2 / 2 ^ 100"
  shows "\<bar>of_int (to_units d) - X * 10 ^ 18\<bar> \<le> 1 + X * 10 ^ 18 / 2 ^ 51"
proof -
  define m where "m = \<lfloor>d * 10 ^ 18 + 1 / 2\<rfloor>"
  have m: "of_int m \<le> d * 10 ^ 18 + 1 / 2" "d * 10 ^ 18 + 1 / 2 < of_int m + 1"
    unfolding m_def by linarith+
  have a: "d - X \<le> X * (1 / 2 ^ 52 + 1 / 2 ^ 106) + 2 / 2 ^ 100"
    "- (d - X) \<le> X * (1 / 2 ^ 52 + 1 / 2 ^ 106) + 2 / 2 ^ 100"
    using assms(3) by (simp_all add: abs_le_iff)
  have "\<bar>of_int m - X * 10 ^ 18\<bar> \<le> 1 + X * 10 ^ 18 / 2 ^ 51"
    unfolding abs_le_iff using nearest_unit [OF m assms(1) a] by blast
  then show ?thesis using assms(2) by (simp add: to_units_nonneg m_def)
qed

lemma binary64_95e21: "binary64 95000000000000000000000 = Fin 94999999999999993708544"
  using binary64_eval [of 95000000000000000000000 76 24 5662441253662109] by simp

lemma binary64_95e19: "binary64 (23749999999999998427136 / 25) = Fin 950000000000000000000"
  using binary64_eval [of "23749999999999998427136 / 25" 69 17 7247924804687500] by simp

lemma quote_defined:
  assumes "0 \<le> r" "r \<le> 10 ^ 21"
  shows "\<exists>m. minTokenOutAmount (Fin r) = Some m"
proof -
  have top: "num_divide (num_times (Fin (10 ^ 21)) (Fin 95)) 100 = Fin 950000000000000000000"
    by (simp add: binary64_95e21 binary64_95e19)
  from clip_mono [OF assms(1,2) _ order_refl top]
  obtain d where d: "num_divide (num_times (Fin r) (Fin 95)) 100 = Fin d" "0 \<le> d"
    "d \<le> 950000000000000000000" by auto
  then have "\<bar>d\<bar> < 10 ^ 21" by simp
  then show ?thesis
    using d(1) unfolding minTokenOutAmount_def slippagePercentage_def minOutput_Some
    by (auto simp: binary64_95)
qed

lemma clipped_quote_props:
  assumes "0 \<le> r" "minTokenOutAmount (Fin r) = Some m"
  shows "\<exists>d. num_divide (num_times (Fin r) (Fin 95)) 100 = Fin d \<and> 0 \<le> d \<and> d < 10 ^ 21
      \<and> m = \<lfloor>d * 10 ^ 18 + 1 / 2\<rfloor>"
    and "\<bar>of_int m - r * 95 / 100 * 10 ^ 18\<bar> \<le> 1 + r * 95 / 100 * 10 ^ 18 / 2 ^ 51"
proof -
  obtain d where d: "num_divide (num_times (Fin r) (Fin 95)) 100 = Fin d" "\<bar>d\<bar> < 10 ^ 21"
    "m = to_units d"
    using assms(2) unfolding minTokenOutAmount_def slippagePercentage_def minOutput_Some
    by (auto simp: binary64_95)
  have d0: "0 \<le> d" using clip_mono [OF assms(1) order_refl _ order_refl d(1)] d(1) by auto
  show "\<exists>d. num_divide (num_times (Fin r) (Fin 95)) 100 = Fin d \<and> 0 \<le> d \<and> d < 10 ^ 21
      \<and> m = \<lfloor>d * 10 ^ 18 + 1 / 2\<rfloor>"
    using d d0 by (auto simp: to_units_nonneg)
  have "0 \<le> r * 95 / 100" using assms(1) by simp
  from units_error [OF this d0] clip_error [OF assms(1) _ d(1)]
  show "\<bar>of_int m - r * 95 / 100 * 10 ^ 18\<bar> \<le> 1 + r * 95 / 100 * 10 ^ 18 / 2 ^ 51"
    using d(3) by simp
qed

lemma minOutput_2p19: "minOutput (Fin (1 / 2 ^ 19)) (Fin 0) = Some 1907348632813"
  by (simp add: minOutput_eq binary64_100 binary64_100_2pm19 binary64_2pm19 to_units_def floor_rat_numeral)

lemma zero_slippage_error:
  assumes "0 \<le> r" "minOutput (Fin r) (Fin 0) = Some m0"
  shows "\<bar>of_int m0 - r * 10 ^ 18\<bar> \<le> 1 + r * 10 ^ 18 / 2 ^ 51"
proof -
  obtain d where d: "num_divide (num_times (Fin r) (Fin 100)) 100 = Fin d" "m0 = to_units d"
    using assms(2) unfolding minOutput_Some by (auto simp: binary64_100)
  have d0: "0 \<le> d" using clip_mono [OF assms(1) order_refl _ order_refl d(1)] d(1) by auto
  from units_error [OF assms(1) d0] clip_error [OF assms(1) _ d(1)]
  show ?thesis using d(2) by simp
qed

lemma minOutput_100_5: "minOutput (Fin 100) (Fin 5) = Some (95 * 10 ^ 18)"
  using minTokenOutAmount_100 by (simp add: minTokenOutAmount_def slippagePercentage_def)

lemma minOutput_3_5: "minOutput (Fin 3) (Fin 5) = Some 2850000000000000089"
  using minTokenOutAmount_3 by (simp add: minTokenOutAmount_def slippagePercentage_def)

section \<open>The shape of a run\<close>

text \<open>
  A run either stops before the smart account is used, with nothing but the pool query,
  the path search, the account set-up and log lines, or it continues with the allowance
  guard and the swap; the events of each stage are listed.
\<close>

lemma swap_value_eq: "swap_value sends = Some (if first_flag sends then 10 ^ 14 else 0)"
proof -
  have "Option.bind (toFixed size_in 18) parseEther = Some (10 ^ 14)"
    using amountInWei_value unfolding amountInWei_def outTokenDecimals_def parseEther_def
    by (cases "toFixed size_in 18") (simp_all del: toFixed.simps)
  then show ?thesis
    by (simp add: swap_value_def first_flag_def split: list.splits)
qed

lemma encode_swap:
  "encodeFunctionData chk (swap_args ro mo) =
     (if \<not> list_all (isAddress chk) (route_addresses ro) then Inl InvalidAddressError
      else if uint256 mo then Inr (swap_args ro mo) else Inl IntegerOutOfRangeError)"
  by (auto simp: encodeFunctionData_def swap_args_def route_addresses_def uint256_def)

lemma encode_approve:
  "isAddress chk router \<Longrightarrow> uint256 amt \<Longrightarrow>
     encodeFunctionData chk (Approve router amt) = Inr (Approve router amt)"
  by (simp add: encodeFunctionData_def)

lemma main_with_no_api:
  "KURU_API cfg = None \<Longrightarrow> main_with tin tout cfg w = ([], Threw PoolFetcherError)"
  by (simp add: main_with_def attempt_def)

lemma main_with_first:
  "KURU_API cfg = Some api \<Longrightarrow> take 1 (fst (main_with tin tout cfg w)) = [GetAllPools api tin tout]"
  by (simp add: main_with_def attempt_def await_def split: option.splits)

lemma main_with_no_route:
  assumes "KURU_API cfg = Some api" "pools w = Some ps" "bestPath w = Some ro" "output_val ro = Fin 0"
  shows "main_with tin tout cfg w =
    ([GetAllPools api tin tout, FindBestPath tin tout size_in ps,
      ConsoleLog [''No route found'']], Exited 0)"
  using assms
  by (simp add: main_with_def await_def attempt_def minTokenOutAmount_0 amountInWei_value)

lemma main_with_route:
  assumes "KURU_API cfg = Some api" "pools w = Some ps" "bestPath w = Some ro"
    "minTokenOutAmount (output_val ro) = Some mo" "output_val ro \<noteq> Fin 0"
  shows "main_with tin tout cfg w =
    emit (GetAllPools api tin tout) (emit (FindBestPath tin tout size_in ps)
     (attempt_either (encodeFunctionData (checksummed w) (swap_args ro mo)) (\<lambda>dat.
      attempt InvalidPrivateKeyError (PRIVATE_KEY cfg) (\<lambda>privateKey.
      await (CreateKernelAccount privateKey) AccountError (account w) (\<lambda>userAccountAddress.
      emit (ConsoleLog [''smart wallet address:'', userAccountAddress])
        (allowance_guard tin cfg w userAccountAddress (10 ^ 14)
           (submit_swap cfg w (if first_flag (nativeSend ro) then 10 ^ 14 else 0) dat)))))))"
  using assms
  by (simp add: main_with_def await_def attempt_def emit_def amountInWei_value swap_value_eq
      swap_args_def Let_def)

lemma main_with_reached:
  assumes "KURU_API cfg = Some api" "pools w = Some ps" "bestPath w = Some ro"
    "minTokenOutAmount (output_val ro) = Some mo" "output_val ro \<noteq> Fin 0"
    "list_all (isAddress (checksummed w)) (route_addresses ro)" "uint256 mo"
    "PRIVATE_KEY cfg = Some pk" "account w = Some acct"
  shows "main_with tin tout cfg w =
    ([GetAllPools api tin tout, FindBestPath tin tout size_in ps,
      CreateKernelAccount pk, ConsoleLog [''smart wallet address:'', acct]]
      @ fst (allowance_guard tin cfg w acct (10 ^ 14)
               (submit_swap cfg w (if first_flag (nativeSend ro) then 10 ^ 14 else 0) (swap_args ro mo))),
     snd (allowance_guard tin cfg w acct (10 ^ 14)
               (submit_swap cfg w (if first_flag (nativeSend ro) then 10 ^ 14 else 0) (swap_args ro mo))))"
  unfolding main_with_route [OF assms(1-5)] encode_swap
  using assms(6-9) by (simp add: await_def attempt_def attempt_either_def emit_def)

lemma main_with_cases:
  "(\<exists>api ps ro mo pk acct. KURU_API cfg = Some api \<and> pools w = Some ps \<and> bestPath w = Some ro
      \<and> minTokenOutAmount (output_val ro) = Some mo \<and> output_val ro \<noteq> Fin 0
      \<and> list_all (isAddress (checksummed w)) (route_addresses ro) \<and> uint256 mo
      \<and> PRIVATE_KEY cfg = Some pk \<and> account w = Some acct)
   \<or> list_all early_event (fst (main_with tin tout cfg w))
      \<and> (\<forall>c ro. snd (main_with tin tout cfg w) = Exited c \<and> bestPath w = Some ro
            \<longrightarrow> output_val ro = Fin 0)"
proof (cases "KURU_API cfg")
  case None
  then show ?thesis by (simp add: main_with_no_api)
next
  case api: (Some api)
  show ?thesis
  proof (cases "pools w")
    case None
    then show ?thesis using api by (simp add: main_with_def await_def attempt_def)
  next
    case ps: (Some ps)
    show ?thesis
    proof (cases "bestPath w")
      case None
      then show ?thesis using api ps by (simp add: main_with_def await_def attempt_def)
    next
      case ro: (Some ro)
      show ?thesis
      proof (cases "minTokenOutAmount (output_val ro)")
        case None
        then show ?thesis using api ps ro by (simp add: main_with_def await_def attempt_def)
      next
        case mo: (Some mo)
        show ?thesis
        proof (cases "output_val ro = Fin 0")
          case True
          then show ?thesis using main_with_no_route [OF api ps ro True, of tin tout] ro by simp
        next
          case nz: False
          note R = main_with_route [OF api ps ro mo nz, of tin tout]
          show ?thesis
          proof (cases "list_all (isAddress (checksummed w)) (route_addresses ro) \<and> uint256 mo")
            case False
            then show ?thesis unfolding R encode_swap
              by (auto simp: attempt_either_def emit_def)
          next
            case ok: True
            show ?thesis
            proof (cases "PRIVATE_KEY cfg")
              case None
              then show ?thesis unfolding R encode_swap using ok
                by (simp add: attempt_def attempt_either_def emit_def)
            next
              case pk: (Some pk)
              show ?thesis
              proof (cases "account w")
                case None
                then show ?thesis unfolding R encode_swap using ok pk
                  by (simp add: attempt_def await_def attempt_either_def emit_def)
              next
                case (Some acct)
                then show ?thesis using api ps ro mo nz ok pk by blast
              qed
            qed
          qed
        qed
      qed
    qed
  qed
qed

lemma submit_swap_events:
  "list_all (\<lambda>e. \<not> is_allowance_read e \<and> \<not> is_approval e
       \<and> (\<forall>c \<in> set (event_calls e). call_amount (call_data c) = 10 ^ 14))
     (fst (submit_swap cfg w v (swap_args ro mo)))"
  by (auto simp: submit_swap_def attempt_def await_def Let_def userOperation_of_def is_approval_def
      swap_args_def split: option.splits)

lemma early_event_props:
  "early_event e \<Longrightarrow> \<not> is_allowance_read e \<and> \<not> is_approval e \<and> event_calls e = []
     \<and> \<not> is_swap_submission e \<and> event_op e = None"
  by (cases e) (simp_all add: is_approval_def)

lemma guard_native: "allowance_guard zeroAddress cfg w acct amt rest = rest"
  by (simp add: allowance_guard_def)

lemma guard_enough:
  assumes "tin \<noteq> zeroAddress" "allowance w = Some a" "amt \<le> int a"
  shows "allowance_guard tin cfg w acct amt rest =
    (case KURU_ROUTER cfg of None \<Rightarrow> ([], Threw InvalidAddressError)
     | Some router \<Rightarrow>
        if isAddress (checksummed w) acct \<and> isAddress (checksummed w) router
           \<and> isAddress (checksummed w) tin
        then (ReadAllowance tin acct router # fst rest, snd rest)
        else ([], Threw InvalidAddressError))"
  using assms by (simp add: allowance_guard_def attempt_def await_def split: option.splits)

lemma guard_low:
  assumes "tin \<noteq> zeroAddress" "allowance w = Some a" "int a < 10 ^ 14"
  shows "allowance_guard tin cfg w acct (10 ^ 14) rest =
    (case KURU_ROUTER cfg of None \<Rightarrow> ([], Threw InvalidAddressError)
     | Some router \<Rightarrow>
        if isAddress (checksummed w) acct \<and> isAddress (checksummed w) router
           \<and> isAddress (checksummed w) tin
        then
          (case approvalOpHash w of
             None \<Rightarrow> ([ReadAllowance tin acct router, SendUserOperation (approve_op tin router (10 ^ 14))],
                      Threw SendUserOperationError)
           | Some h \<Rightarrow>
              (case approvalReceipt w of
                 None \<Rightarrow> ([ReadAllowance tin acct router, SendUserOperation (approve_op tin router (10 ^ 14)),
                            WaitForUserOperationReceipt h], Threw ReceiptError)
               | Some tx \<Rightarrow> ([ReadAllowance tin acct router, SendUserOperation (approve_op tin router (10 ^ 14)),
                            WaitForUserOperationReceipt h, ConsoleLog [''approval tx: '', tx]] @ fst rest,
                           snd rest)))
        else ([], Threw InvalidAddressError))"
  using assms
  by (simp add: allowance_guard_def attempt_def attempt_either_def await_def emit_def encode_approve
      uint256_def approve_op_def split: option.splits)

lemma list_all_early:
  assumes "list_all early_event t"
  shows "\<not> list_ex is_allowance_read t" "\<not> list_ex is_approval t" "\<not> list_ex is_swap_submission t"
    "\<forall>e \<in> set t. event_calls e = []" "\<forall>e \<in> set t. event_op e = None"
  using assms early_event_props by (auto simp: list_all_iff list_ex_iff)

lemma submit_swap_props:
  "\<not> list_ex is_allowance_read (fst (submit_swap cfg w v (swap_args ro mo)))"
  "\<not> list_ex is_approval (fst (submit_swap cfg w v (swap_args ro mo)))"
  "filter is_approval (fst (submit_swap cfg w v (swap_args ro mo))) = []"
  "\<forall>e \<in> set (fst (submit_swap cfg w v (swap_args ro mo))). \<forall>c \<in> set (event_calls e).
      call_amount (call_data c) = 10 ^ 14"
  using submit_swap_events [of cfg w v ro mo]
  by (auto simp: list_all_iff list_ex_iff filter_empty_conv)

lemma guard_events:
  assumes "e \<in> set (fst (allowance_guard tin cfg w acct amt rest))"
  shows "e \<in> set (fst rest) \<or> is_allowance_read e \<or> (\<exists>r. e = SendUserOperation (approve_op tin r amt))
     \<or> (\<exists>h. e = WaitForUserOperationReceipt h) \<or> (\<exists>l. e = ConsoleLog l)"
  using assms
  by (auto simp: allowance_guard_def attempt_def attempt_either_def await_def emit_def
      encodeFunctionData_def approve_op_def split: option.splits if_splits sum.splits)

lemma submit_swap_calls:
  assumes "e \<in> set (fst (submit_swap cfg w v d))" "e = SignUserOperation op \<or> e = SendUserOperation op"
  shows "\<exists>router. KURU_ROUTER cfg = Some router
     \<and> callData op = [\<lparr>call_to = router, call_value = v, call_data = d\<rparr>]"
  using assms
  by (auto simp: submit_swap_def attempt_def await_def Let_def userOperation_of_def
      split: option.splits)

lemma guard_amounts:
  assumes "\<forall>e \<in> set (fst rest). \<forall>c \<in> set (event_calls e). call_amount (call_data c) = amt"
    "e \<in> set (fst (allowance_guard tin cfg w acct amt rest))" "c \<in> set (event_calls e)"
  shows "call_amount (call_data c) = amt"
  using guard_events [OF assms(2)] assms(1,3)
  by (auto simp: approve_op_def elim: is_allowance_read.elims)

text \<open>A run that ends with an exit has gone through its last stage, the swap.\<close>

lemma guard_exit:
  assumes "snd (allowance_guard tin cfg w acct amt rest) = Exited c"
  shows "snd rest = Exited c \<and> set (fst rest) \<subseteq> set (fst (allowance_guard tin cfg w acct amt rest))"
  using assms
  by (auto simp: allowance_guard_def attempt_def attempt_either_def await_def emit_def
      split: option.splits if_splits sum.splits)

lemma submit_swap_exit:
  assumes "snd (submit_swap cfg w v d) = Exited c"
  shows "\<exists>router sg. KURU_ROUTER cfg = Some router \<and> swapSignature w = Some sg
     \<and> SignUserOperation
          \<lparr>callData = [\<lparr>call_to = router, call_value = v, call_data = d\<rparr>],
           maxPriorityFeePerGas = None, maxFeePerGas = None, signature = None\<rparr>
        \<in> set (fst (submit_swap cfg w v d))
     \<and> SendUserOperation
          \<lparr>callData = [\<lparr>call_to = router, call_value = v, call_data = d\<rparr>],
           maxPriorityFeePerGas = None, maxFeePerGas = None, signature = Some sg\<rparr>
        \<in> set (fst (submit_swap cfg w v d))"
  using assms
  by (auto simp: submit_swap_def attempt_def await_def Let_def userOperation_of_def userOpFees_def
      escalate_def split: option.splits)

text \<open>No user operation of a run has a fee field.\<close>

lemma submit_swap_fees:
  assumes "e \<in> set (fst (submit_swap cfg w v d))" "event_op e = Some op"
  shows "maxPriorityFeePerGas op = None \<and> maxFeePerGas op = None"
  using assms
  by (auto simp: submit_swap_def attempt_def await_def Let_def userOperation_of_def userOpFees_def
      escalate_def split: option.splits)

lemma guard_fees:
  assumes "\<forall>e \<in> set (fst rest). \<forall>op. event_op e = Some op \<longrightarrow>
      maxPriorityFeePerGas op = None \<and> maxFeePerGas op = None"
    "e \<in> set (fst (allowance_guard tin cfg w acct amt rest))" "event_op e = Some op"
  shows "maxPriorityFeePerGas op = None \<and> maxFeePerGas op = None"
  using guard_events [OF assms(2)] assms(1,3)
  by (auto simp: approve_op_def elim: is_allowance_read.elims)

text \<open>The examples, evaluated.\<close>

lemma fixtures_valid:
  "isAddress chk router0" "isAddress chk book1" "isAddress chk book2" "isAddress chk account0"
  "isAddress chk wif0" "isAddress chk USDC"
  by (simp_all add: isAddress_def is_hex_def router0_def book1_def book2_def account0_def wif0_def
      USDC_def)

lemma world_fields:
  "pools (world r a) = Some [\<lparr>orderbook = book1\<rparr>, \<lparr>orderbook = book2\<rparr>]"
  "bestPath (world r a) = Some (two_hops r)" "account (world r a) = Some account0"
  "allowance (world r a) = Some a" "approvalOpHash (world r a) = Some approvalOp0"
  "approvalReceipt (world r a) = Some approvalTx0" "swapSignature (world r a) = Some swapSig0"
  "swapOpHash (world r a) = Some swapOp0" "swapReceipt (world r a) = Some swapTx0"
  "output_val (two_hops r) = r" "nativeSend (two_hops r) = [True, False]"
  "route_addresses (two_hops r) = [book1, book2, USDC, wif0]"
  by (simp_all add: world_def two_hops_def route_addresses_def)

lemma cfg_fields:
  "PRIVATE_KEY cfg_ok = Some key0" "KURU_ROUTER cfg_ok = Some router0"
  "KURU_API cfg_ok = Some ''https://api.kuru.example''"
  "RPC_URL cfg_ok = Some ''https://rpc.monad.example''"
  "RPC_URL cfg_missing = Some ''https://rpc.monad.example''"
  "KURU_API cfg_missing = Some ''https://api.kuru.example''"
  "KURU_ROUTER cfg_missing = None" "BUNDLER_URL cfg_missing = None" "PRIVATE_KEY cfg_missing = None"
  by (simp_all add: cfg_ok_def cfg_missing_def)

lemma USDC_not_native: "USDC \<noteq> zeroAddress"
  by (simp add: USDC_def zeroAddress_def)

lemma submit_swap_ok:
  "submit_swap cfg_ok (world r a) 100000000000000 (swap_args (two_hops r) 95000000000000000000) =
     ([SignUserOperation swap_op, SendUserOperation (swap_op\<lparr>signature := Some swapSig0\<rparr>),
       WaitForUserOperationReceipt swapOp0, ConsoleLog [''op tx hash:'', swapTx0]], Exited 0)"
  by (simp add: submit_swap_def attempt_def await_def cfg_fields world_fields userOperation_of_def
      userOpFees_def escalate_def swap_args_def swap_op_def swap_call_def two_hops_def Let_def)

lemma guard_low_ok:
  "allowance_guard USDC cfg_ok (world r 0) account0 100000000000000 rest =
      ([ReadAllowance USDC account0 router0,
        SendUserOperation (approve_op USDC router0 100000000000000),
        WaitForUserOperationReceipt approvalOp0, ConsoleLog [''approval tx: '', approvalTx0]] @ fst rest,
       snd rest)"
  using guard_low [OF USDC_not_native, of "world r 0" 0 cfg_ok account0 rest]
  by (simp add: world_fields cfg_fields fixtures_valid)

lemma guard_enough_ok:
  "allowance_guard USDC cfg_ok (world r 100000000000000) account0 100000000000000 rest =
      (ReadAllowance USDC account0 router0 # fst rest, snd rest)"
  using guard_enough [OF USDC_not_native, of "world r 100000000000000" 100000000000000
      100000000000000 cfg_ok account0 rest]
  by (simp add: world_fields cfg_fields fixtures_valid)

lemma run_low_allowance:
  "main cfg_ok (world (Fin 100) 0) =
     ([GetAllPools ''https://api.kuru.example'' USDC WIF,
       FindBestPath USDC WIF size_in [\<lparr>orderbook = book1\<rparr>, \<lparr>orderbook = book2\<rparr>],
       CreateKernelAccount key0, ConsoleLog [''smart wallet address:'', account0],
       ReadAllowance USDC account0 router0,
       SendUserOperation (approve_op USDC router0 100000000000000),
       WaitForUserOperationReceipt approvalOp0, ConsoleLog [''approval tx: '', approvalTx0],
       SignUserOperation swap_op, SendUserOperation (swap_op\<lparr>signature := Some swapSig0\<rparr>),
       WaitForUserOperationReceipt swapOp0, ConsoleLog [''op tx hash:'', swapTx0]], Exited 0)"
  unfolding main_def
  using main_with_reached [of cfg_ok _ "world (Fin 100) 0" _ "two_hops (Fin 100)" "95 * 10 ^ 18"
      key0 account0 USDC WIF]
  by (simp add: world_fields cfg_fields minTokenOutAmount_100 uint256_def first_flag_def guard_low_ok
      submit_swap_ok fixtures_valid)

lemma run_enough_allowance:
  "main cfg_ok (world (Fin 100) 100000000000000) =
     ([GetAllPools ''https://api.kuru.example'' USDC WIF,
       FindBestPath USDC WIF size_in [\<lparr>orderbook = book1\<rparr>, \<lparr>orderbook = book2\<rparr>],
       CreateKernelAccount key0, ConsoleLog [''smart wallet address:'', account0],
       ReadAllowance USDC account0 router0,
       SignUserOperation swap_op, SendUserOperation (swap_op\<lparr>signature := Some swapSig0\<rparr>),
       WaitForUserOperationReceipt swapOp0, ConsoleLog [''op tx hash:'', swapTx0]], Exited 0)"
  unfolding main_def
  using main_with_reached [of cfg_ok _ "world (Fin 100) 100000000000000" _ "two_hops (Fin 100)"
      "95 * 10 ^ 18" key0 account0 USDC WIF]
  by (simp add: world_fields cfg_fields minTokenOutAmount_100 uint256_def first_flag_def
      guard_enough_ok submit_swap_ok fixtures_valid)

section \<open>The claims\<close>

lemma native_no_guard_events:
  "\<not> list_ex (\<lambda>e. is_allowance_read e \<or> is_approval e) (fst (main_with zeroAddress tokenOut cfg w))"
  using main_with_cases [of cfg w zeroAddress tokenOut]
proof (elim disjE exE conjE)
  fix api ps ro mo pk acct
  assume "KURU_API cfg = Some api" "pools w = Some ps" "bestPath w = Some ro"
    "minTokenOutAmount (output_val ro) = Some mo" "output_val ro \<noteq> Fin 0"
    "list_all (isAddress (checksummed w)) (route_addresses ro)" "uint256 mo"
    "PRIVATE_KEY cfg = Some pk" "account w = Some acct"
  from main_with_reached [OF this, of zeroAddress tokenOut]
  show ?thesis
    using submit_swap_props(1,2) [of cfg w _ ro mo]
    by (auto simp: guard_native list_ex_iff is_approval_def)
next
  assume "list_all early_event (fst (main_with zeroAddress tokenOut cfg w))"
  then show ?thesis using list_all_early(1,2) by (auto simp: list_ex_iff)
qed

lemma approvals_at_amount:
  "tokenIn \<noteq> zeroAddress \<Longrightarrow> allowance w = Some a \<Longrightarrow>
     (10 ^ 14 \<le> int a \<longrightarrow> \<not> list_ex is_approval (fst (main_with tokenIn tokenOut cfg w)))
   \<and> (int a < 10 ^ 14 \<and> list_ex is_allowance_read (fst (main_with tokenIn tokenOut cfg w)) \<longrightarrow>
        length (filter is_approval (fst (main_with tokenIn tokenOut cfg w))) = 1
      \<and> (\<forall>e \<in> set (fst (main_with tokenIn tokenOut cfg w)). is_swap_submission e \<longrightarrow>
           (\<exists>h tx. approvalOpHash w = Some h \<and> approvalReceipt w = Some tx
              \<and> precedes (WaitForUserOperationReceipt h) e (fst (main_with tokenIn tokenOut cfg w)))))"
proof -
  assume tin: "tokenIn \<noteq> zeroAddress" and al: "allowance w = Some a"
  let ?T = "fst (main_with tokenIn tokenOut cfg w)"
  from main_with_cases [of cfg w tokenIn tokenOut]
  show ?thesis
  proof (elim disjE exE conjE)
    assume "list_all early_event ?T"
    from list_all_early [OF this] show ?thesis by (auto simp: list_ex_iff)
  next
    fix api ps ro mo pk acct
    assume r: "KURU_API cfg = Some api" "pools w = Some ps" "bestPath w = Some ro"
      "minTokenOutAmount (output_val ro) = Some mo" "output_val ro \<noteq> Fin 0"
      "list_all (isAddress (checksummed w)) (route_addresses ro)" "uint256 mo"
      "PRIVATE_KEY cfg = Some pk" "account w = Some acct"
    define rest where "rest = submit_swap cfg w (if first_flag (nativeSend ro) then 10 ^ 14 else 0) (swap_args ro mo)"
    have T: "?T = [GetAllPools api tokenIn tokenOut, FindBestPath tokenIn tokenOut size_in ps,
        CreateKernelAccount pk, ConsoleLog [''smart wallet address:'', acct]]
        @ fst (allowance_guard tokenIn cfg w acct (10 ^ 14) rest)"
      using main_with_reached [OF r, of tokenIn tokenOut] by (simp add: rest_def)
    have rest: "\<not> list_ex is_allowance_read (fst rest)" "\<not> list_ex is_approval (fst rest)"
      "filter is_approval (fst rest) = []"
      unfolding rest_def using submit_swap_props by auto
    have A: "\<not> list_ex is_approval ?T" if "10 ^ 14 \<le> int a"
      using that rest(2) unfolding T guard_enough [OF tin al that]
      by (auto simp: list_ex_iff is_approval_def split: option.splits if_splits)
    have B: "length (filter is_approval ?T) = 1
      \<and> (\<forall>e \<in> set ?T. is_swap_submission e \<longrightarrow>
           (\<exists>h tx. approvalOpHash w = Some h \<and> approvalReceipt w = Some tx
              \<and> precedes (WaitForUserOperationReceipt h) e ?T))"
      if lt: "int a < 10 ^ 14" and rd: "list_ex is_allowance_read ?T"
    proof -
      note g = guard_low [OF tin al lt, of cfg acct rest]
      obtain router where router: "KURU_ROUTER cfg = Some router"
        and valid: "isAddress (checksummed w) acct \<and> isAddress (checksummed w) router
           \<and> isAddress (checksummed w) tokenIn"
        using rd unfolding T g by (cases "KURU_ROUTER cfg") (auto simp: list_ex_iff split: if_splits)
      show ?thesis
      proof (cases "approvalOpHash w")
        case None
        show ?thesis unfolding T g router None using valid
          by (simp add: approve_op_def is_approval_def)
      next
        case (Some h)
        show ?thesis
        proof (cases "approvalReceipt w")
          case None
          show ?thesis unfolding T g router Some None using valid
            by (simp add: approve_op_def is_approval_def)
        next
          case (Some tx)
          have sw: "e \<in> set (fst rest)" if "e \<in> set ?T" "is_swap_submission e" for e
            using that valid unfolding T g router \<open>approvalOpHash w = Some h\<close> Some
            by (auto simp: approve_op_def)
          have pr: "precedes (WaitForUserOperationReceipt h) e ?T" if "e \<in> set (fst rest)" for e
            using that valid unfolding T g router \<open>approvalOpHash w = Some h\<close> Some
            by (simp add: precedes_def)
          have len: "length (filter is_approval ?T) = 1"
            unfolding T g router \<open>approvalOpHash w = Some h\<close> Some using rest(3) valid
            by (simp add: approve_op_def is_approval_def)
          show ?thesis using len sw pr \<open>approvalOpHash w = Some h\<close> Some by blast
        qed
      qed
    qed
    show ?thesis using A B by blast
  qed
qed

text \<open>A run that exits although a route was found has signed and sent the swap.\<close>

lemma exit_after_swap:
  assumes "snd (main_with tokenIn tokenOut cfg w) = Exited c" "bestPath w = Some ro"
    "output_val ro \<noteq> Fin 0"
  shows "\<exists>router mo sg. KURU_ROUTER cfg = Some router \<and> minTokenOutAmount (output_val ro) = Some mo
     \<and> swapSignature w = Some sg
     \<and> SignUserOperation
          \<lparr>callData = [\<lparr>call_to = router,
                        call_value = (if first_flag (nativeSend ro) then 10 ^ 14 else 0),
                        call_data = swap_args ro mo\<rparr>],
           maxPriorityFeePerGas = None, maxFeePerGas = None, signature = None\<rparr>
        \<in> set (fst (main_with tokenIn tokenOut cfg w))
     \<and> SendUserOperation
          \<lparr>callData = [\<lparr>call_to = router,
                        call_value = (if first_flag (nativeSend ro) then 10 ^ 14 else 0),
                        call_data = swap_args ro mo\<rparr>],
           maxPriorityFeePerGas = None, maxFeePerGas = None, signature = Some sg\<rparr>
        \<in> set (fst (main_with tokenIn tokenOut cfg w))"
  using main_with_cases [of cfg w tokenIn tokenOut]
proof (elim disjE exE conjE)
  assume "\<forall>c ro. snd (main_with tokenIn tokenOut cfg w) = Exited c \<and> bestPath w = Some ro
            \<longrightarrow> output_val ro = Fin 0"
  with assms show ?thesis by blast
next
  fix api ps ro' mo pk acct
  assume r: "KURU_API cfg = Some api" "pools w = Some ps" "bestPath w = Some ro'"
    "minTokenOutAmount (output_val ro') = Some mo" "output_val ro' \<noteq> Fin 0"
    "list_all (isAddress (checksummed w)) (route_addresses ro')" "uint256 mo"
    "PRIVATE_KEY cfg = Some pk" "account w = Some acct"
  have ro: "ro' = ro" using r(3) assms(2) by simp
  define v :: int where "v = (if first_flag (nativeSend ro) then 10 ^ 14 else 0)"
  define rest where "rest = submit_swap cfg w v (swap_args ro mo)"
  define G where "G = allowance_guard tokenIn cfg w acct (10 ^ 14) rest"
  have M: "main_with tokenIn tokenOut cfg w =
      ([GetAllPools api tokenIn tokenOut, FindBestPath tokenIn tokenOut size_in ps,
        CreateKernelAccount pk, ConsoleLog [''smart wallet address:'', acct]] @ fst G, snd G)"
    using main_with_reached [OF r, of tokenIn tokenOut] unfolding ro G_def rest_def v_def .
  have "snd G = Exited c" using assms(1) unfolding M by simp
  from guard_exit [OF this [unfolded G_def]]
  have ex: "snd rest = Exited c" and sub: "set (fst rest) \<subseteq> set (fst G)"
    unfolding G_def by auto
  from submit_swap_exit [OF ex [unfolded rest_def]]
  obtain router sg where rs: "KURU_ROUTER cfg = Some router" "swapSignature w = Some sg"
    "SignUserOperation
       \<lparr>callData = [\<lparr>call_to = router, call_value = v, call_data = swap_args ro mo\<rparr>],
        maxPriorityFeePerGas = None, maxFeePerGas = None, signature = None\<rparr> \<in> set (fst rest)"
    "SendUserOperation
       \<lparr>callData = [\<lparr>call_to = router, call_value = v, call_data = swap_args ro mo\<rparr>],
        maxPriorityFeePerGas = None, maxFeePerGas = None, signature = Some sg\<rparr> \<in> set (fst rest)"
    unfolding rest_def by blast
  have "set (fst rest) \<subseteq> set (fst (main_with tokenIn tokenOut cfg w))"
    using sub unfolding M by auto
  with rs r(4) show ?thesis unfolding v_def ro by blast
qed

subsection \<open>C1: the value of the quote\<close>

text \<open>
  C1, as stated, at a raw output of 3: the claim gives the truncated exact value
  \<open>\<lfloor>3 * (100 - 5) / 100 * 10^18\<rfloor> = 2850000000000000000\<close>; the code computes \<open>3 * 95 / 100\<close> in
  binary64 and \<^verbatim>\<open>toFixed\<close> rounds to nearest, which gives \<open>2850000000000000089\<close>, above the
  exact value.
\<close>

theorem quote_rounded_up:
  "minTokenOutAmount (Fin 3) = Some 2850000000000000089
   \<and> \<lfloor>(3::rat) * (100 - 5) / 100 * 10 ^ 18\<rfloor> = 2850000000000000000"
  by (simp add: minTokenOutAmount_3 floor_rat_numeral)

text \<open>
  C1, amended: the minimum output is computed in binary64 floating point and rounded to
  the nearest unit, not truncated. For a raw output \<open>r\<close> from 0 to \<open>10^21\<close> it is computed, it
  is the integer nearest to \<open>d * 10^18\<close> (a half rounds up), where \<open>d\<close> is the binary64 result
  of \<open>(r * 95) / 100\<close>, and it differs from the exact \<open>r * 95 / 100 * 10^18\<close> by at most
  \<open>1 + r * 95 / 100 * 10^18 / 2^51\<close>, in either direction. For \<open>r = 100\<close>, a slippage of 5
  and 18 decimals it is \<open>95 * 10^18\<close>.
\<close>

theorem quote_value:
  "(0 \<le> r \<and> r \<le> 10 ^ 21 \<longrightarrow> (\<exists>m. minTokenOutAmount (Fin r) = Some m))
   \<and> (0 \<le> r \<and> minTokenOutAmount (Fin r) = Some m \<longrightarrow>
        (\<exists>d. num_divide (num_times (Fin r) (Fin 95)) 100 = Fin d \<and> 0 \<le> d \<and> d < 10 ^ 21
           \<and> m = \<lfloor>d * 10 ^ 18 + 1 / 2\<rfloor>)
        \<and> \<bar>of_int m - r * 95 / 100 * 10 ^ 18\<bar> \<le> 1 + r * 95 / 100 * 10 ^ 18 / 2 ^ 51)
   \<and> minTokenOutAmount (Fin 100) = Some (95 * 10 ^ 18)"
  using quote_defined [of r] clipped_quote_props [of r m] minTokenOutAmount_100 by blast

theorem quote_value_witness:
  "(0::rat) \<le> 3 \<and> (3::rat) \<le> 10 ^ 21 \<and> minTokenOutAmount (Fin 3) = Some 2850000000000000089
   \<and> \<bar>of_int 2850000000000000089 - (3::rat) * 95 / 100 * 10 ^ 18\<bar> \<le> 1 + 3 * 95 / 100 * 10 ^ 18 / 2 ^ 51
   \<and> minTokenOutAmount (Fin 100) = Some (95 * 10 ^ 18)"
  using quote_value [of 3 2850000000000000089] minTokenOutAmount_3 by simp

subsection \<open>C2: no route\<close>

text \<open>
  C2: when the route resolver reports an output of 0, the run consists of the pool query,
  the path search and the line "No route found", and the process exits with code 0: no
  allowance is read and no user operation is built, signed or sent. The resolver is
  reached only with the routing service's endpoint present, which the pool query is sent
  to.
\<close>

theorem no_route_aborts:
  "KURU_API cfg = Some api \<and> pools w = Some ps \<and> bestPath w = Some ro \<and> output_val ro = Fin 0 \<longrightarrow>
     main_with tokenIn tokenOut cfg w =
       ([GetAllPools api tokenIn tokenOut, FindBestPath tokenIn tokenOut size_in ps,
         ConsoleLog [''No route found'']], Exited 0)
     \<and> \<not> list_ex (\<lambda>e. is_allowance_read e \<or> event_calls e \<noteq> []) (fst (main_with tokenIn tokenOut cfg w))"
  using main_with_no_route [of cfg api w ps ro tokenIn tokenOut] by auto

theorem no_route_aborts_witness:
  "KURU_API cfg_ok = Some ''https://api.kuru.example''
   \<and> pools (world (Fin 0) 0) = Some [\<lparr>orderbook = book1\<rparr>, \<lparr>orderbook = book2\<rparr>]
   \<and> bestPath (world (Fin 0) 0) = Some (two_hops (Fin 0))
   \<and> output_val (two_hops (Fin 0)) = Fin 0
   \<and> main cfg_ok (world (Fin 0) 0) =
       ([GetAllPools ''https://api.kuru.example'' USDC WIF,
         FindBestPath USDC WIF size_in [\<lparr>orderbook = book1\<rparr>, \<lparr>orderbook = book2\<rparr>],
         ConsoleLog [''No route found'']], Exited 0)"
  using no_route_aborts [of cfg_ok _ "world (Fin 0) 0" _ "two_hops (Fin 0)" USDC WIF]
  by (simp add: world_fields cfg_fields main_def)

subsection \<open>C3: approval before swap\<close>

text \<open>
  C3: for an input token other than the native one, with \<open>a\<close> the allowance the chain
  answers: if \<open>a\<close> is at least the required amount (equal included), no approval operation
  appears in the run; if the allowance is read and \<open>a\<close> is smaller, exactly one approval
  operation is sent, and a swap operation is sent only after the approval's receipt has
  been awaited and obtained.
\<close>

theorem approval_before_swap:
  "tokenIn \<noteq> zeroAddress \<Longrightarrow> amountInWei = Some amt \<Longrightarrow> allowance w = Some a \<Longrightarrow>
     (amt \<le> int a \<longrightarrow> \<not> list_ex is_approval (fst (main_with tokenIn tokenOut cfg w)))
   \<and> (int a < amt \<and> list_ex is_allowance_read (fst (main_with tokenIn tokenOut cfg w)) \<longrightarrow>
        length (filter is_approval (fst (main_with tokenIn tokenOut cfg w))) = 1
      \<and> (\<forall>e \<in> set (fst (main_with tokenIn tokenOut cfg w)). is_swap_submission e \<longrightarrow>
           (\<exists>h tx. approvalOpHash w = Some h \<and> approvalReceipt w = Some tx
              \<and> precedes (WaitForUserOperationReceipt h) e (fst (main_with tokenIn tokenOut cfg w)))))"
proof -
  assume tin: "tokenIn \<noteq> zeroAddress" and am: "amountInWei = Some amt" and al: "allowance w = Some a"
  have amt: "amt = 10 ^ 14" using am amountInWei_value by (metis option.inject)
  show ?thesis unfolding amt using approvals_at_amount [OF tin al] .
qed

theorem approval_before_swap_witness:
  "USDC \<noteq> zeroAddress \<and> amountInWei = Some 100000000000000
   \<and> allowance (world (Fin 100) 0) = Some 0
   \<and> list_ex is_allowance_read (fst (main cfg_ok (world (Fin 100) 0)))
   \<and> length (filter is_approval (fst (main cfg_ok (world (Fin 100) 0)))) = 1
   \<and> precedes (WaitForUserOperationReceipt approvalOp0)
        (SendUserOperation (swap_op\<lparr>signature := Some swapSig0\<rparr>))
        (fst (main cfg_ok (world (Fin 100) 0)))
   \<and> allowance (world (Fin 100) 100000000000000) = Some 100000000000000
   \<and> \<not> list_ex is_approval (fst (main cfg_ok (world (Fin 100) 100000000000000)))
   \<and> list_ex is_swap_submission (fst (main cfg_ok (world (Fin 100) 100000000000000)))"
  using approval_before_swap [OF USDC_not_native amountInWei_value, of "world (Fin 100) 0" 0 WIF cfg_ok]
    approval_before_swap [OF USDC_not_native amountInWei_value, of "world (Fin 100) 100000000000000"
      100000000000000 WIF cfg_ok]
    amountInWei_value
  by (simp add: USDC_not_native world_fields run_low_allowance run_enough_allowance
      main_def [symmetric] is_approval_def approve_op_def swap_op_def swap_call_def precedes_def)

subsection \<open>C4: one input amount\<close>

text \<open>
  C4: \<open>amountInWei\<close> is \<open>10^14\<close>, the amount 0.0001 scaled by the 18 decimals of the output
  token (\<open>outTokenDecimals\<close>); the program has no other notion of the input token's
  decimals. Every call of every user operation of a run carries this amount, the swap as
  its input amount and the approval as the amount granted; once the allowance is read
  an approval is sent exactly when the allowance is below it; and every run that exits
  although the resolver found a route has signed and sent the swap operation, whose call
  to the router has this amount as the input amount of \<^verbatim>\<open>anyToAnySwap\<close>.
\<close>

theorem input_amount_everywhere:
  "amountInWei = Some (10 ^ 14) \<and> (10::int) ^ 14 * 10000 = 10 ^ outTokenDecimals
   \<and> (\<forall>e \<in> set (fst (main_with tokenIn tokenOut cfg w)). \<forall>c \<in> set (event_calls e).
         call_amount (call_data c) = 10 ^ 14)
   \<and> (\<forall>a. allowance w = Some a \<and> list_ex is_allowance_read (fst (main_with tokenIn tokenOut cfg w)) \<longrightarrow>
         (list_ex is_approval (fst (main_with tokenIn tokenOut cfg w)) \<longleftrightarrow> int a < 10 ^ 14))
   \<and> (\<forall>ro. snd (main_with tokenIn tokenOut cfg w) = Exited 0 \<and> bestPath w = Some ro
           \<and> output_val ro \<noteq> Fin 0 \<longrightarrow>
         (\<exists>router mo sg. KURU_ROUTER cfg = Some router
            \<and> minTokenOutAmount (output_val ro) = Some mo \<and> swapSignature w = Some sg
            \<and> SignUserOperation
                 \<lparr>callData =
                    [\<lparr>call_to = router,
                      call_value = (if first_flag (nativeSend ro) then 10 ^ 14 else 0),
                      call_data = AnyToAnySwap (map orderbook (route_path (route ro))) (isBuy ro)
                        (nativeSend ro) (route_tokenIn (route ro)) (route_tokenOut (route ro))
                        (10 ^ 14) mo\<rparr>],
                  maxPriorityFeePerGas = None, maxFeePerGas = None, signature = None\<rparr>
               \<in> set (fst (main_with tokenIn tokenOut cfg w))
            \<and> SendUserOperation
                 \<lparr>callData =
                    [\<lparr>call_to = router,
                      call_value = (if first_flag (nativeSend ro) then 10 ^ 14 else 0),
                      call_data = AnyToAnySwap (map orderbook (route_path (route ro))) (isBuy ro)
                        (nativeSend ro) (route_tokenIn (route ro)) (route_tokenOut (route ro))
                        (10 ^ 14) mo\<rparr>],
                  maxPriorityFeePerGas = None, maxFeePerGas = None, signature = Some sg\<rparr>
               \<in> set (fst (main_with tokenIn tokenOut cfg w))))"
proof (intro conjI)
  show "amountInWei = Some (10 ^ 14)" by (rule amountInWei_value)
  show "(10::int) ^ 14 * 10000 = 10 ^ outTokenDecimals" by (simp add: outTokenDecimals_def)
  let ?T = "fst (main_with tokenIn tokenOut cfg w)"
  show "\<forall>e \<in> set ?T. \<forall>c \<in> set (event_calls e). call_amount (call_data c) = 10 ^ 14"
    using main_with_cases [of cfg w tokenIn tokenOut]
  proof (elim disjE exE conjE)
    assume "list_all early_event ?T"
    from list_all_early(4) [OF this] show ?thesis by simp
  next
    fix api ps ro mo pk acct
    assume r: "KURU_API cfg = Some api" "pools w = Some ps" "bestPath w = Some ro"
      "minTokenOutAmount (output_val ro) = Some mo" "output_val ro \<noteq> Fin 0"
      "list_all (isAddress (checksummed w)) (route_addresses ro)" "uint256 mo"
      "PRIVATE_KEY cfg = Some pk" "account w = Some acct"
    show ?thesis
      unfolding main_with_reached [OF r, of tokenIn tokenOut]
      using guard_amounts [OF submit_swap_props(4)] by auto
  qed
  show "\<forall>a. allowance w = Some a \<and> list_ex is_allowance_read ?T \<longrightarrow>
         (list_ex is_approval ?T \<longleftrightarrow> int a < 10 ^ 14)"
  proof (intro allI impI, elim conjE)
    fix a assume al: "allowance w = Some a" and rd: "list_ex is_allowance_read ?T"
    have tin: "tokenIn \<noteq> zeroAddress"
    proof
      assume "tokenIn = zeroAddress"
      with native_no_guard_events [of tokenOut cfg w] rd show False
        by (auto simp: list_ex_iff)
    qed
    show "list_ex is_approval ?T \<longleftrightarrow> int a < 10 ^ 14"
    proof (cases "int a < 10 ^ 14")
      case True
      with approvals_at_amount [OF tin al, of tokenOut cfg] rd
      have "length (filter is_approval ?T) = 1" by simp
      then have "filter is_approval ?T \<noteq> []" by auto
      then have "list_ex is_approval ?T" by (simp add: filter_empty_conv list_ex_iff)
      with True show ?thesis by simp
    next
      case False
      with approvals_at_amount [OF tin al, of tokenOut cfg]
      show ?thesis by simp
    qed
  qed
  show "\<forall>ro. snd (main_with tokenIn tokenOut cfg w) = Exited 0 \<and> bestPath w = Some ro
           \<and> output_val ro \<noteq> Fin 0 \<longrightarrow>
         (\<exists>router mo sg. KURU_ROUTER cfg = Some router
            \<and> minTokenOutAmount (output_val ro) = Some mo \<and> swapSignature w = Some sg
            \<and> SignUserOperation
                 \<lparr>callData =
                    [\<lparr>call_to = router,
                      call_value = (if first_flag (nativeSend ro) then 10 ^ 14 else 0),
                      call_data = AnyToAnySwap (map orderbook (route_path (route ro))) (isBuy ro)
                        (nativeSend ro) (route_tokenIn (route ro)) (route_tokenOut (route ro))
                        (10 ^ 14) mo\<rparr>],
                  maxPriorityFeePerGas = None, maxFeePerGas = None, signature = None\<rparr>
               \<in> set ?T
            \<and> SendUserOperation
                 \<lparr>callData =
                    [\<lparr>call_to = router,
                      call_value = (if first_flag (nativeSend ro) then 10 ^ 14 else 0),
                      call_data = AnyToAnySwap (map orderbook (route_path (route ro))) (isBuy ro)
                        (nativeSend ro) (route_tokenIn (route ro)) (route_tokenOut (route ro))
                        (10 ^ 14) mo\<rparr>],
                  maxPriorityFeePerGas = None, maxFeePerGas = None, signature = Some sg\<rparr>
               \<in> set ?T)"
  proof (intro allI impI, elim conjE)
    fix ro
    assume "snd (main_with tokenIn tokenOut cfg w) = Exited 0" "bestPath w = Some ro"
      "output_val ro \<noteq> Fin 0"
    from exit_after_swap [OF this] show "\<exists>router mo sg. KURU_ROUTER cfg = Some router
            \<and> minTokenOutAmount (output_val ro) = Some mo \<and> swapSignature w = Some sg
            \<and> SignUserOperation
                 \<lparr>callData =
                    [\<lparr>call_to = router,
                      call_value = (if first_flag (nativeSend ro) then 10 ^ 14 else 0),
                      call_data = AnyToAnySwap (map orderbook (route_path (route ro))) (isBuy ro)
                        (nativeSend ro) (route_tokenIn (route ro)) (route_tokenOut (route ro))
                        (10 ^ 14) mo\<rparr>],
                  maxPriorityFeePerGas = None, maxFeePerGas = None, signature = None\<rparr>
               \<in> set ?T
            \<and> SendUserOperation
                 \<lparr>callData =
                    [\<lparr>call_to = router,
                      call_value = (if first_flag (nativeSend ro) then 10 ^ 14 else 0),
                      call_data = AnyToAnySwap (map orderbook (route_path (route ro))) (isBuy ro)
                        (nativeSend ro) (route_tokenIn (route ro)) (route_tokenOut (route ro))
                        (10 ^ 14) mo\<rparr>],
                  maxPriorityFeePerGas = None, maxFeePerGas = None, signature = Some sg\<rparr>
               \<in> set ?T"
      unfolding swap_args_def .
  qed
qed

theorem input_amount_everywhere_witness:
  "amountInWei = Some 100000000000000
   \<and> snd (main cfg_ok (world (Fin 100) 0)) = Exited 0
   \<and> bestPath (world (Fin 100) 0) = Some (two_hops (Fin 100))
   \<and> output_val (two_hops (Fin 100)) \<noteq> Fin 0
   \<and> allowance (world (Fin 100) 0) = Some 0
   \<and> list_ex is_allowance_read (fst (main cfg_ok (world (Fin 100) 0)))
   \<and> list_ex is_approval (fst (main cfg_ok (world (Fin 100) 0)))
   \<and> SendUserOperation
        \<lparr>callData = [\<lparr>call_to = USDC, call_value = 0, call_data = Approve router0 100000000000000\<rparr>],
         maxPriorityFeePerGas = None, maxFeePerGas = None, signature = None\<rparr>
      \<in> set (fst (main cfg_ok (world (Fin 100) 0)))
   \<and> SignUserOperation
        \<lparr>callData =
           [\<lparr>call_to = router0, call_value = 100000000000000,
             call_data = AnyToAnySwap [book1, book2] [False, True] [True, False] USDC wif0
               100000000000000 95000000000000000000\<rparr>],
         maxPriorityFeePerGas = None, maxFeePerGas = None, signature = None\<rparr>
      \<in> set (fst (main cfg_ok (world (Fin 100) 0)))
   \<and> SendUserOperation
        \<lparr>callData =
           [\<lparr>call_to = router0, call_value = 100000000000000,
             call_data = AnyToAnySwap [book1, book2] [False, True] [True, False] USDC wif0
               100000000000000 95000000000000000000\<rparr>],
         maxPriorityFeePerGas = None, maxFeePerGas = None, signature = Some swapSig0\<rparr>
      \<in> set (fst (main cfg_ok (world (Fin 100) 0)))
   \<and> list_all (\<lambda>e. list_all (\<lambda>c. call_amount (call_data c) = 100000000000000) (event_calls e))
        (fst (main cfg_ok (world (Fin 100) 0)))"
  using input_amount_everywhere [of USDC WIF cfg_ok "world (Fin 100) 0"]
  by (simp add: world_fields run_low_allowance main_def [symmetric] is_approval_def approve_op_def
      swap_op_def swap_call_def)

subsection \<open>C5: bounds of the quote\<close>

lemma binary64_0_007: "binary64 (7 / 1000) = Fin (8070450532247929 / 2 ^ 60)"
  using binary64_eval [of "7 / 1000" "- 8" "- 60" 8070450532247929] by simp

lemma binary64_0_7: "binary64 (201761263306198225 / 288230376151711744) = Fin (6305039478318695 / 2 ^ 53)"
  using binary64_eval [of "201761263306198225 / 288230376151711744" "- 1" "- 53" 6305039478318695] by simp

lemma binary64_0_007_up:
  "binary64 (1261007895663739 / 180143985094819840) = Fin (8070450532247930 / 2 ^ 60)"
  using binary64_eval [of "1261007895663739 / 180143985094819840" "- 8" "- 60" 8070450532247930] by simp

text \<open>
  C5, as stated, at the raw output \<^verbatim>\<open>0.007\<close> (the binary64 number \<open>8070450532247929 / 2^60\<close>) and
  a slippage of 0: \<open>(r * 100) / 100\<close> is the next binary64 number above \<open>r\<close>, and the quote is
  \<open>7000000000000001\<close> units, while \<open>r\<close> is less than that and is \<open>7000000000000000\<close> to the
  nearest unit: the quote is neither equal to \<open>r\<close> nor at most \<open>r\<close>.
\<close>

theorem quote_exceeds_raw_output:
  "binary64 (7 / 1000) = Fin (8070450532247929 / 2 ^ 60)
   \<and> minOutput (Fin (8070450532247929 / 2 ^ 60)) (Fin 0) = Some 7000000000000001
   \<and> (8070450532247929 / 2 ^ 60 :: rat) * 10 ^ 18 < 7000000000000001
   \<and> \<lfloor>(8070450532247929 / 2 ^ 60 :: rat) * 10 ^ 18 + 1 / 2\<rfloor> = 7000000000000000"
  by (simp add: binary64_0_007 minOutput_eq binary64_100 binary64_0_7 binary64_0_007_up to_units_def
      floor_rat_numeral)

text \<open>
  C5, amended: for a raw output \<open>r \<ge> 0\<close> and a slippage \<open>s\<close> in \<open>[0, 100]\<close>, whenever the quote
  at slippage 0 is computed: the quote at slippage 100 is 0; the quote at \<open>s\<close> is computed,
  is not negative and is at most the quote at slippage 0; and the quote at slippage 0 is
  within \<open>1 + r * 10^18 / 2^51\<close> units of \<open>r\<close>, above or below.
\<close>

theorem quote_bounds:
  "0 \<le> r \<and> 0 \<le> s \<and> s \<le> 100 \<and> minOutput (Fin r) (Fin 0) = Some m0 \<longrightarrow>
     minOutput (Fin r) (Fin 100) = Some 0
   \<and> (\<exists>m. minOutput (Fin r) (Fin s) = Some m \<and> 0 \<le> m \<and> m \<le> m0)
   \<and> \<bar>of_int m0 - r * 10 ^ 18\<bar> \<le> 1 + r * 10 ^ 18 / 2 ^ 51"
  using minOutput_full_slippage [of r] minOutput_mono_core [of r r 0 s m0] zero_slippage_error [of r m0]
  by auto

theorem quote_bounds_witness:
  "(0::rat) \<le> 1 / 2 ^ 19 \<and> (0::rat) \<le> 5 \<and> (5::rat) \<le> 100
   \<and> minOutput (Fin (1 / 2 ^ 19)) (Fin 0) = Some 1907348632813
   \<and> minOutput (Fin (1 / 2 ^ 19)) (Fin 100) = Some 0
   \<and> \<bar>of_int 1907348632813 - (1 / 2 ^ 19 :: rat) * 10 ^ 18\<bar> \<le> 1 + 1 / 2 ^ 19 * 10 ^ 18 / 2 ^ 51"
  using quote_bounds [of "1 / 2 ^ 19" 5 1907348632813] minOutput_2p19 by simp

subsection \<open>C6: monotonicity of the quote\<close>

text \<open>
  C6: for raw outputs \<open>0 \<le> r1 \<le> r2\<close> and slippages \<open>0 \<le> s1 \<le> s2 \<le> 100\<close>, when the quote is
  computed at \<open>(r2, s1)\<close> it is computed at \<open>(r1, s1)\<close> and at \<open>(r2, s2)\<close> too and is no larger
  there: the quote does not decrease with the raw output and does not increase with the
  slippage.
\<close>

theorem minOutput_monotone:
  "0 \<le> r1 \<and> r1 \<le> r2 \<and> 0 \<le> s1 \<and> s1 \<le> s2 \<and> s2 \<le> 100 \<and> minOutput (Fin r2) (Fin s1) = Some m \<longrightarrow>
     (\<exists>m1. minOutput (Fin r1) (Fin s1) = Some m1 \<and> m1 \<le> m)
   \<and> (\<exists>m2. minOutput (Fin r2) (Fin s2) = Some m2 \<and> m2 \<le> m)"
proof (intro impI, elim conjE)
  assume a: "0 \<le> r1" "r1 \<le> r2" "0 \<le> s1" "s1 \<le> s2" "s2 \<le> 100" "minOutput (Fin r2) (Fin s1) = Some m"
  have "\<exists>m'. minOutput (Fin r1) (Fin s1) = Some m' \<and> 0 \<le> m' \<and> m' \<le> m"
    using minOutput_mono_core [of r1 r2 s1 s1 m] a by simp
  moreover have "\<exists>m'. minOutput (Fin r2) (Fin s2) = Some m' \<and> 0 \<le> m' \<and> m' \<le> m"
    using minOutput_mono_core [of r2 r2 s1 s2 m] a by simp
  ultimately show "(\<exists>m1. minOutput (Fin r1) (Fin s1) = Some m1 \<and> m1 \<le> m)
   \<and> (\<exists>m2. minOutput (Fin r2) (Fin s2) = Some m2 \<and> m2 \<le> m)" by blast
qed

theorem minOutput_monotone_witness:
  "(0::rat) \<le> 3 \<and> (3::rat) \<le> 100 \<and> (0::rat) \<le> 5 \<and> (5::rat) \<le> 100
   \<and> minOutput (Fin 100) (Fin 5) = Some (95 * 10 ^ 18)
   \<and> minOutput (Fin 3) (Fin 5) = Some 2850000000000000089
   \<and> minOutput (Fin 100) (Fin 100) = Some 0
   \<and> (2850000000000000089::int) \<le> 95 * 10 ^ 18"
  using minOutput_monotone [of 3 100 5 100 "95 * 10 ^ 18"] minOutput_100_5 minOutput_3_5
    minOutput_full_slippage [of 100]
  by simp

subsection \<open>C7: the swap call\<close>

text \<open>
  C7: the swap user operation that is signed, and the one that is sent, have one call, to
  the router; its value is \<open>10^14\<close> (the input amount 0.0001 in the native currency's
  smallest unit) when the first native-send flag of the route is true and 0 otherwise, so
  it is nonzero exactly then; and its data carry the order book of every hop, in order,
  and the route's buy and native-send flags as the resolver gave them.
\<close>

theorem swap_call_fields:
  "\<forall>e \<in> set (fst (main_with tokenIn tokenOut cfg w)). \<forall>op.
     (e = SignUserOperation op \<or> e = SendUserOperation op \<and> is_swap_submission e) \<longrightarrow>
     (\<exists>ro router mo. bestPath w = Some ro \<and> KURU_ROUTER cfg = Some router
        \<and> minTokenOutAmount (output_val ro) = Some mo
        \<and> callData op =
            [\<lparr>call_to = router,
              call_value = (if first_flag (nativeSend ro) then 10 ^ 14 else 0),
              call_data = AnyToAnySwap (map orderbook (route_path (route ro))) (isBuy ro) (nativeSend ro)
                (route_tokenIn (route ro)) (route_tokenOut (route ro)) (10 ^ 14) mo\<rparr>])"
proof (intro ballI allI impI)
  fix e op
  let ?T = "fst (main_with tokenIn tokenOut cfg w)"
  assume e: "e \<in> set ?T" and k: "e = SignUserOperation op \<or> e = SendUserOperation op \<and> is_swap_submission e"
  from main_with_cases [of cfg w tokenIn tokenOut]
  show "\<exists>ro router mo. bestPath w = Some ro \<and> KURU_ROUTER cfg = Some router
        \<and> minTokenOutAmount (output_val ro) = Some mo
        \<and> callData op =
            [\<lparr>call_to = router,
              call_value = (if first_flag (nativeSend ro) then 10 ^ 14 else 0),
              call_data = AnyToAnySwap (map orderbook (route_path (route ro))) (isBuy ro) (nativeSend ro)
                (route_tokenIn (route ro)) (route_tokenOut (route ro)) (10 ^ 14) mo\<rparr>]"
  proof (elim disjE exE conjE)
    assume "list_all early_event ?T"
    then have "early_event e" using e by (simp add: list_all_iff)
    with k show ?thesis by auto
  next
    fix api ps ro mo pk acct
    assume r: "KURU_API cfg = Some api" "pools w = Some ps" "bestPath w = Some ro"
      "minTokenOutAmount (output_val ro) = Some mo" "output_val ro \<noteq> Fin 0"
      "list_all (isAddress (checksummed w)) (route_addresses ro)" "uint256 mo"
      "PRIVATE_KEY cfg = Some pk" "account w = Some acct"
    define v :: int where "v = (if first_flag (nativeSend ro) then 10 ^ 14 else 0)"
    have "e \<in> set (fst (allowance_guard tokenIn cfg w acct (10 ^ 14) (submit_swap cfg w v (swap_args ro mo))))"
      using e k unfolding main_with_reached [OF r, of tokenIn tokenOut] v_def by auto
    from guard_events [OF this] k
    have "e \<in> set (fst (submit_swap cfg w v (swap_args ro mo)))"
      by (auto simp: approve_op_def)
    from submit_swap_calls [OF this, of op] k
    obtain router where "KURU_ROUTER cfg = Some router"
      "callData op = [\<lparr>call_to = router, call_value = v, call_data = swap_args ro mo\<rparr>]"
      by auto
    then show ?thesis using r(3,4) unfolding v_def swap_args_def by blast
  qed
qed

theorem swap_call_fields_witness:
  "SignUserOperation swap_op \<in> set (fst (main cfg_ok (world (Fin 100) 0)))
   \<and> nativeSend (two_hops (Fin 100)) = [True, False]
   \<and> map orderbook (route_path (route (two_hops (Fin 100)))) = [book1, book2]
   \<and> callData swap_op =
       [\<lparr>call_to = router0, call_value = 100000000000000,
         call_data = AnyToAnySwap [book1, book2] [False, True] [True, False] USDC wif0
           100000000000000 95000000000000000000\<rparr>]"
  using swap_call_fields [of USDC WIF cfg_ok "world (Fin 100) 0"]
  by (simp add: run_low_allowance main_def [symmetric] swap_op_def swap_call_def two_hops_def)

subsection \<open>C8: the native input token\<close>

text \<open>
  C8: when the input token is the zero address, no run reads an allowance or carries an
  approval, whatever the amounts, and a run that reaches the smart account, which takes
  the routing service's endpoint, a route with an output, arguments that encode, the
  private key and the account, goes from the log of its address straight to the swap.
\<close>

theorem native_token_skips_guard:
  "\<not> list_ex (\<lambda>e. is_allowance_read e \<or> is_approval e) (fst (main_with zeroAddress tokenOut cfg w))
   \<and> (KURU_API cfg = Some api \<and> pools w = Some ps \<and> bestPath w = Some ro
        \<and> minTokenOutAmount (output_val ro) = Some mo \<and> output_val ro \<noteq> Fin 0
        \<and> list_all (isAddress (checksummed w)) (route_addresses ro) \<and> uint256 mo
        \<and> PRIVATE_KEY cfg = Some pk \<and> account w = Some acct
      \<longrightarrow> main_with zeroAddress tokenOut cfg w =
          ([GetAllPools api zeroAddress tokenOut, FindBestPath zeroAddress tokenOut size_in ps,
            CreateKernelAccount pk, ConsoleLog [''smart wallet address:'', acct]]
           @ fst (submit_swap cfg w (if first_flag (nativeSend ro) then 10 ^ 14 else 0) (swap_args ro mo)),
           snd (submit_swap cfg w (if first_flag (nativeSend ro) then 10 ^ 14 else 0) (swap_args ro mo))))"
proof (intro conjI impI)
  show "\<not> list_ex (\<lambda>e. is_allowance_read e \<or> is_approval e) (fst (main_with zeroAddress tokenOut cfg w))"
    by (rule native_no_guard_events)
next
  assume "KURU_API cfg = Some api \<and> pools w = Some ps \<and> bestPath w = Some ro
        \<and> minTokenOutAmount (output_val ro) = Some mo \<and> output_val ro \<noteq> Fin 0
        \<and> list_all (isAddress (checksummed w)) (route_addresses ro) \<and> uint256 mo
        \<and> PRIVATE_KEY cfg = Some pk \<and> account w = Some acct"
  then show "main_with zeroAddress tokenOut cfg w =
          ([GetAllPools api zeroAddress tokenOut, FindBestPath zeroAddress tokenOut size_in ps,
            CreateKernelAccount pk, ConsoleLog [''smart wallet address:'', acct]]
           @ fst (submit_swap cfg w (if first_flag (nativeSend ro) then 10 ^ 14 else 0) (swap_args ro mo)),
           snd (submit_swap cfg w (if first_flag (nativeSend ro) then 10 ^ 14 else 0) (swap_args ro mo)))"
    using main_with_reached [of cfg api w ps ro mo pk acct zeroAddress tokenOut]
    by (simp add: guard_native)
qed

theorem native_token_skips_guard_witness:
  "KURU_API cfg_ok = Some ''https://api.kuru.example''
   \<and> pools (world (Fin 100) 0) = Some [\<lparr>orderbook = book1\<rparr>, \<lparr>orderbook = book2\<rparr>]
   \<and> bestPath (world (Fin 100) 0) = Some (two_hops (Fin 100))
   \<and> minTokenOutAmount (output_val (two_hops (Fin 100))) = Some 95000000000000000000
   \<and> output_val (two_hops (Fin 100)) \<noteq> Fin 0
   \<and> list_all (isAddress (checksummed (world (Fin 100) 0))) (route_addresses (two_hops (Fin 100)))
   \<and> uint256 95000000000000000000
   \<and> PRIVATE_KEY cfg_ok = Some key0 \<and> account (world (Fin 100) 0) = Some account0
   \<and> \<not> list_ex (\<lambda>e. is_allowance_read e \<or> is_approval e)
        (fst (main_with zeroAddress WIF cfg_ok (world (Fin 100) 0)))
   \<and> main_with zeroAddress WIF cfg_ok (world (Fin 100) 0) =
     ([GetAllPools ''https://api.kuru.example'' zeroAddress WIF,
       FindBestPath zeroAddress WIF size_in [\<lparr>orderbook = book1\<rparr>, \<lparr>orderbook = book2\<rparr>],
       CreateKernelAccount key0, ConsoleLog [''smart wallet address:'', account0],
       SignUserOperation swap_op, SendUserOperation (swap_op\<lparr>signature := Some swapSig0\<rparr>),
       WaitForUserOperationReceipt swapOp0, ConsoleLog [''op tx hash:'', swapTx0]], Exited 0)"
  using native_token_skips_guard [of WIF cfg_ok "world (Fin 100) 0" "''https://api.kuru.example''"
      "[\<lparr>orderbook = book1\<rparr>, \<lparr>orderbook = book2\<rparr>]" "two_hops (Fin 100)"
      95000000000000000000 key0 account0]
    minTokenOutAmount_100
  by (simp add: world_fields cfg_fields uint256_def first_flag_def submit_swap_ok is_approval_def
      swap_op_def swap_call_def fixtures_valid)

subsection \<open>C9: the gas-fee fields\<close>

lemma bigint_div_pos: "0 < v \<Longrightarrow> bigint_div (15 * v) 10 = 15 * v div 10"
  by (simp add: bigint_div_def)

lemma run_fees:
  assumes "e \<in> set (fst (main_with tokenIn tokenOut cfg w))" "event_op e = Some op"
  shows "maxPriorityFeePerGas op = None \<and> maxFeePerGas op = None"
  using main_with_cases [of cfg w tokenIn tokenOut]
proof (elim disjE exE conjE)
  assume "list_all early_event (fst (main_with tokenIn tokenOut cfg w))"
  from list_all_early(5) [OF this] assms show ?thesis by auto
next
  fix api ps ro mo pk acct
  assume r: "KURU_API cfg = Some api" "pools w = Some ps" "bestPath w = Some ro"
    "minTokenOutAmount (output_val ro) = Some mo" "output_val ro \<noteq> Fin 0"
    "list_all (isAddress (checksummed w)) (route_addresses ro)" "uint256 mo"
    "PRIVATE_KEY cfg = Some pk" "account w = Some acct"
  define rest where "rest = submit_swap cfg w (if first_flag (nativeSend ro) then 10 ^ 14 else 0) (swap_args ro mo)"
  have "e \<in> set (fst (allowance_guard tokenIn cfg w acct (10 ^ 14) rest))"
    using assms unfolding main_with_reached [OF r, of tokenIn tokenOut] rest_def by auto
  moreover have "\<forall>e \<in> set (fst rest). \<forall>op. event_op e = Some op \<longrightarrow>
      maxPriorityFeePerGas op = None \<and> maxFeePerGas op = None"
    unfolding rest_def using submit_swap_fees by blast
  ultimately show ?thesis using guard_fees assms(2) by blast
qed

text \<open>
  C9: no estimate of the fees is available to the program, \<open>userOpFees\<close> being the
  constant \<^verbatim>\<open>undefined\<close>, and every user operation that a run signs or sends has both fee
  fields undefined, so that the defaults of the execution context apply. The expression
  that builds the swap operation gives, for an estimate whose component is positive, the
  field \<open>15 * component div 10\<close>, the estimate times \<open>15 / 10\<close> in integer arithmetic, and
  for no estimate the two fields undefined.
\<close>

theorem fee_fields:
  "userOpFees = None
   \<and> (\<forall>e \<in> set (fst (main_with tokenIn tokenOut cfg w)). \<forall>op. event_op e = Some op \<longrightarrow>
         maxPriorityFeePerGas op = None \<and> maxFeePerGas op = None)
   \<and> (fs = None \<longrightarrow>
         maxPriorityFeePerGas (userOperation_of fs c) = None \<and> maxFeePerGas (userOperation_of fs c) = None)
   \<and> (\<forall>est p. fs = Some est \<and> fees_maxPriorityFeePerGas est = Some p \<and> 0 < p \<longrightarrow>
          maxPriorityFeePerGas (userOperation_of fs c) = Some (15 * p div 10))
   \<and> (\<forall>est m. fs = Some est \<and> fees_maxFeePerGas est = Some m \<and> 0 < m \<longrightarrow>
          maxFeePerGas (userOperation_of fs c) = Some (15 * m div 10))"
proof (intro conjI)
  show "userOpFees = None" by (simp add: userOpFees_def)
  show "\<forall>e \<in> set (fst (main_with tokenIn tokenOut cfg w)). \<forall>op. event_op e = Some op \<longrightarrow>
         maxPriorityFeePerGas op = None \<and> maxFeePerGas op = None"
    using run_fees by blast
  show "fs = None \<longrightarrow>
         maxPriorityFeePerGas (userOperation_of fs c) = None \<and> maxFeePerGas (userOperation_of fs c) = None"
    by (simp add: userOperation_of_def escalate_def)
  show "\<forall>est p. fs = Some est \<and> fees_maxPriorityFeePerGas est = Some p \<and> 0 < p \<longrightarrow>
          maxPriorityFeePerGas (userOperation_of fs c) = Some (15 * p div 10)"
    by (auto simp: userOperation_of_def escalate_def gasIncreaser_def bigint_div_pos)
  show "\<forall>est m. fs = Some est \<and> fees_maxFeePerGas est = Some m \<and> 0 < m \<longrightarrow>
          maxFeePerGas (userOperation_of fs c) = Some (15 * m div 10)"
    by (auto simp: userOperation_of_def escalate_def gasIncreaser_def bigint_div_pos)
qed

theorem fee_fields_witness:
  "SignUserOperation swap_op \<in> set (fst (main cfg_ok (world (Fin 100) 0)))
   \<and> SendUserOperation (swap_op\<lparr>signature := Some swapSig0\<rparr>) \<in> set (fst (main cfg_ok (world (Fin 100) 0)))
   \<and> event_op (SignUserOperation swap_op) = Some swap_op
   \<and> callData swap_op = [swap_call]
   \<and> maxPriorityFeePerGas swap_op = None \<and> maxFeePerGas swap_op = None
   \<and> userOperation_of None swap_call = swap_op
   \<and> maxPriorityFeePerGas
       (userOperation_of (Some \<lparr>fees_maxPriorityFeePerGas = Some 7, fees_maxFeePerGas = Some 20\<rparr>)
          swap_call) = Some 10
   \<and> maxFeePerGas
       (userOperation_of (Some \<lparr>fees_maxPriorityFeePerGas = Some 7, fees_maxFeePerGas = Some 20\<rparr>)
          swap_call) = Some 30"
  using fee_fields [of USDC WIF cfg_ok "world (Fin 100) 0"
      "Some \<lparr>fees_maxPriorityFeePerGas = Some 7, fees_maxFeePerGas = Some 20\<rparr>" swap_call]
    fee_fields [of USDC WIF cfg_ok "world (Fin 100) 0" None swap_call]
  by (simp add: run_low_allowance main_def [symmetric] swap_op_def approve_op_def
      userOperation_of_def escalate_def)

subsection \<open>C10: missing settings\<close>

text \<open>
  C10, as stated, with the router address, the bundler endpoint and the private key all
  missing and a resolver that reports an output of 0: the claim gives a fatal
  configuration error before any part of the flow; the program queries the pools,
  searches a path, logs "No route found" and exits with code 0.
\<close>

theorem missing_config_exits_zero:
  "KURU_ROUTER cfg_missing = None \<and> BUNDLER_URL cfg_missing = None \<and> PRIVATE_KEY cfg_missing = None
   \<and> program cfg_missing (world (Fin 0) 0) =
       ([GetAllPools ''https://api.kuru.example'' USDC WIF,
         FindBestPath USDC WIF size_in [\<lparr>orderbook = book1\<rparr>, \<lparr>orderbook = book2\<rparr>],
         ConsoleLog [''No route found'']], Exited 0)"
  using main_with_no_route [of cfg_missing _ "world (Fin 0) 0" _ "two_hops (Fin 0)" USDC WIF]
  by (simp add: program_def truthy_def attempt_def main_def cfg_fields world_fields)

text \<open>
  C10, amended: the settings are read without validation, and a missing one stops the
  program only where it is first used. Two are used before any call is made: a missing
  or empty RPC endpoint throws when the chain client is created, at start-up, and a
  missing endpoint of the routing service throws at the first statement of \<^verbatim>\<open>main\<close>. The
  router address, the bundler endpoint and the private key are not looked at before the
  route is resolved: with the two endpoints present the program starts with the pool
  query whatever else is missing, and when the resolver reports an output of 0 it logs
  "No route found" and exits with code 0.
\<close>

theorem config_not_validated:
  "(RPC_URL cfg = None \<or> RPC_URL cfg = Some [] \<longrightarrow> program cfg w = ([], Threw UrlRequiredError))
   \<and> (RPC_URL cfg = Some url \<and> url \<noteq> [] \<and> KURU_API cfg = None \<longrightarrow>
        program cfg w = ([], Threw PoolFetcherError))
   \<and> (RPC_URL cfg = Some url \<and> url \<noteq> [] \<and> KURU_API cfg = Some api \<longrightarrow>
        take 1 (fst (program cfg w)) = [GetAllPools api USDC WIF])
   \<and> (RPC_URL cfg = Some url \<and> url \<noteq> [] \<and> KURU_API cfg = Some api
        \<and> pools w = Some ps \<and> bestPath w = Some ro \<and> output_val ro = Fin 0 \<longrightarrow>
        program cfg w =
          ([GetAllPools api USDC WIF, FindBestPath USDC WIF size_in ps,
            ConsoleLog [''No route found'']], Exited 0))"
proof (intro conjI impI)
  show "program cfg w = ([], Threw UrlRequiredError)" if "RPC_URL cfg = None \<or> RPC_URL cfg = Some []"
    using that by (auto simp: program_def truthy_def attempt_def)
  show "program cfg w = ([], Threw PoolFetcherError)"
    if "RPC_URL cfg = Some url \<and> url \<noteq> [] \<and> KURU_API cfg = None"
    using that by (simp add: program_def truthy_def attempt_def main_def main_with_no_api)
  show "take 1 (fst (program cfg w)) = [GetAllPools api USDC WIF]"
    if "RPC_URL cfg = Some url \<and> url \<noteq> [] \<and> KURU_API cfg = Some api"
    using that main_with_first [of cfg api USDC WIF w]
    by (simp add: program_def truthy_def attempt_def main_def)
  show "program cfg w =
          ([GetAllPools api USDC WIF, FindBestPath USDC WIF size_in ps,
            ConsoleLog [''No route found'']], Exited 0)"
    if "RPC_URL cfg = Some url \<and> url \<noteq> [] \<and> KURU_API cfg = Some api
        \<and> pools w = Some ps \<and> bestPath w = Some ro \<and> output_val ro = Fin 0"
    using that main_with_no_route [of cfg api w ps ro USDC WIF]
    by (simp add: program_def truthy_def attempt_def main_def)
qed

theorem config_not_validated_witness:
  "RPC_URL (cfg_ok\<lparr>RPC_URL := None\<rparr>) = None
   \<and> program (cfg_ok\<lparr>RPC_URL := None\<rparr>) (world (Fin 0) 0) = ([], Threw UrlRequiredError)
   \<and> RPC_URL (cfg_ok\<lparr>RPC_URL := Some []\<rparr>) = Some []
   \<and> program (cfg_ok\<lparr>RPC_URL := Some []\<rparr>) (world (Fin 0) 0) = ([], Threw UrlRequiredError)
   \<and> RPC_URL (cfg_ok\<lparr>KURU_API := None\<rparr>) = Some ''https://rpc.monad.example''
   \<and> KURU_API (cfg_ok\<lparr>KURU_API := None\<rparr>) = None
   \<and> program (cfg_ok\<lparr>KURU_API := None\<rparr>) (world (Fin 0) 0) = ([], Threw PoolFetcherError)
   \<and> RPC_URL cfg_missing = Some ''https://rpc.monad.example''
   \<and> KURU_API cfg_missing = Some ''https://api.kuru.example''
   \<and> KURU_ROUTER cfg_missing = None \<and> BUNDLER_URL cfg_missing = None \<and> PRIVATE_KEY cfg_missing = None
   \<and> pools (world (Fin 0) 0) = Some [\<lparr>orderbook = book1\<rparr>, \<lparr>orderbook = book2\<rparr>]
   \<and> bestPath (world (Fin 0) 0) = Some (two_hops (Fin 0))
   \<and> output_val (two_hops (Fin 0)) = Fin 0
   \<and> take 1 (fst (program cfg_missing (world (Fin 0) 0))) = [GetAllPools ''https://api.kuru.example'' USDC WIF]
   \<and> snd (program cfg_missing (world (Fin 0) 0)) = Exited 0"
  using config_not_validated [where cfg = "cfg_ok\<lparr>RPC_URL := None\<rparr>" and w = "world (Fin 0) 0"]
    config_not_validated [where cfg = "cfg_ok\<lparr>RPC_URL := Some []\<rparr>" and w = "world (Fin 0) 0"]
    config_not_validated [where cfg = "cfg_ok\<lparr>KURU_API := None\<rparr>" and w = "world (Fin 0) 0"
      and url = "''https://rpc.monad.example''"]
    config_not_validated [where cfg = cfg_missing and w = "world (Fin 0) 0"
      and url = "''https://rpc.monad.example''" and api = "''https://api.kuru.example''"
      and ro = "two_hops (Fin 0)"]
  by (simp add: cfg_fields world_fields cfg_ok_def)

end
